theory Spec2Isabelle
  imports Complex_Main
begin

section \<open>JavaScript primitives used by the command\<close>

text \<open>
  \<open>Array.prototype.findIndex\<close> and \<open>indexOf\<close> return the position of the first match
  and \<open>-1\<close> when there is none, so the positions are integers.
\<close>

fun findIndex_from :: "('a \<Rightarrow> bool) \<Rightarrow> 'a list \<Rightarrow> int \<Rightarrow> int" where
  "findIndex_from P [] i = - 1"
| "findIndex_from P (x # xs) i = (if P x then i else findIndex_from P xs (i + 1))"

definition findIndex :: "('a \<Rightarrow> bool) \<Rightarrow> 'a list \<Rightarrow> int" where
  "findIndex P xs = findIndex_from P xs 0"

definition indexOf :: "'a list \<Rightarrow> 'a \<Rightarrow> int" where
  "indexOf xs x = findIndex (\<lambda>y. y = x) xs"

text \<open>
  \<open>xs.slice(start)\<close>: a negative start counts from the end, and the start is clamped
  to the length of the array.
\<close>

definition slice_from :: "'a list \<Rightarrow> int \<Rightarrow> 'a list" where
  "slice_from xs start =
     (let n = int (length xs);
          k = (if start < 0 then max (n + start) 0 else min start n)
      in drop (nat k) xs)"

text \<open>
  \<open>xs.filter((x, i, arr) => ...)\<close>: the callback also receives the position of the
  element.
\<close>

definition filter_indexed :: "('a \<Rightarrow> int \<Rightarrow> bool) \<Rightarrow> 'a list \<Rightarrow> 'a list" where
  "filter_indexed p xs =
     map fst (filter (\<lambda>(x, i). p x (int i)) (zip xs [0..<length xs]))"

text \<open>\<open>xs.join(sep)\<close> on an array of strings.\<close>

fun join :: "string \<Rightarrow> string list \<Rightarrow> string" where
  "join sep [] = []"
| "join sep [x] = x"
| "join sep (x # y # ys) = x @ sep @ join sep (y # ys)"

definition endsWith :: "string \<Rightarrow> string \<Rightarrow> bool" where
  "endsWith s suf \<longleftrightarrow>
     length suf \<le> length s \<and> drop (length s - length suf) s = suf"

text \<open>
  \<open>String.prototype.trim\<close>. Strings are lists of bytes here, so only the ASCII white
  space is stripped; the report starts with \<open>#\<close> and ends, before trimming, with line
  ends that follow a letter or a backquote, so no other white space is ever met.
\<close>

definition js_space :: "char \<Rightarrow> bool" where
  "js_space c \<longleftrightarrow> c \<in> {CHR '' '', CHR 0x09, CHR 0x0A, CHR 0x0B, CHR 0x0C, CHR 0x0D}"

definition trim :: "string \<Rightarrow> string" where
  "trim s = rev (dropWhile js_space (rev (dropWhile js_space s)))"

text \<open>\<open>os.EOL\<close> on a POSIX system.\<close>

definition EOL :: string where
  "EOL = [CHR 0x0A]"

subsection \<open>Parsed JSON values\<close>

text \<open>
  The value \<open>JSON.parse\<close> returns. A number only matters to the command through its
  truthiness (zero or not).
\<close>

datatype json =
    JNull
  | JBool bool
  | JNum rat
  | JStr string
  | JArr "json list"
  | JObj "(string \<times> json) list"

fun truthy :: "json \<Rightarrow> bool" where
  "truthy JNull = False"
| "truthy (JBool b) = b"
| "truthy (JNum r) = (r \<noteq> 0)"
| "truthy (JStr s) = (s \<noteq> [])"
| "truthy (JArr xs) = True"
| "truthy (JObj kvs) = True"

text \<open>
  \<open>v[k]\<close> on a truthy value, for the four keys the command reads
  (\<open>@microsoft/generator-sharepoint\<close>, \<open>version\<close>, \<open>dependencies\<close>,
  \<open>@microsoft/sp-core-library\<close>): none of them is a built-in property of an object,
  array, string, number or boolean, so only an object's own entry answers; \<open>None\<close> is
  \<open>undefined\<close>.
\<close>

fun js_prop :: "json \<Rightarrow> string \<Rightarrow> json option" where
  "js_prop (JObj kvs) k = map_of kvs k"
| "js_prop v k = None"

definition truthy_opt :: "json option \<Rightarrow> bool" where
  "truthy_opt v = (case v of None \<Rightarrow> False | Some j \<Rightarrow> truthy j)"

subsection \<open>POSIX paths (Node's \<open>path\<close> module)\<close>

fun split_on :: "char \<Rightarrow> string \<Rightarrow> string list" where
  "split_on c [] = [[]]"
| "split_on c (x # xs) =
     (if x = c then [] # split_on c xs
      else (case split_on c xs of
              [] \<Rightarrow> [[x]]
            | s # ss \<Rightarrow> (x # s) # ss))"

text \<open>
  One step of \<open>normalizeString\<close>: the segments kept so far and the next segment. Empty
  segments and \<open>.\<close> are skipped; \<open>..\<close> removes the last kept segment, unless there is
  none or it is \<open>..\<close> itself, and then it is kept only when the path may climb above
  its root.
\<close>

definition norm_step :: "bool \<Rightarrow> string list \<Rightarrow> string \<Rightarrow> string list" where
  "norm_step allowAboveRoot kept seg =
     (if seg = [] \<or> seg = ''.'' then kept
      else if seg = ''..'' then
        (if kept \<noteq> [] \<and> last kept \<noteq> ''..'' then butlast kept
         else if allowAboveRoot then kept @ [''..'']
         else kept)
      else kept @ [seg])"

definition norm_segments :: "bool \<Rightarrow> string \<Rightarrow> string list" where
  "norm_segments allowAboveRoot p = foldl (norm_step allowAboveRoot) [] (split_on CHR ''/'' p)"

definition normalizeString :: "string \<Rightarrow> bool \<Rightarrow> string" where
  "normalizeString p allowAboveRoot = join ''/'' (norm_segments allowAboveRoot p)"

text \<open>
  \<open>path.resolve(...args)\<close>: the arguments are taken from the right until an absolute
  one is met, the working directory being the last resort; the list here is already
  in that order.
\<close>

fun resolve_loop :: "string list \<Rightarrow> string \<Rightarrow> string \<times> bool" where
  "resolve_loop [] acc = (acc, False)"
| "resolve_loop (p # ps) acc =
     (if p = [] then resolve_loop ps acc
      else if hd p = CHR ''/'' then (p @ ''/'' @ acc, True)
      else resolve_loop ps (p @ ''/'' @ acc))"

definition path_normalize :: "string \<Rightarrow> string" where
  "path_normalize p =
     (if p = [] then ''.''
      else
        (let isAbsolute = (hd p = CHR ''/'');
             trailingSeparator = (last p = CHR ''/'');
             q = normalizeString p (\<not> isAbsolute);
             q1 = (if q = [] \<and> \<not> isAbsolute then ''.'' else q);
             q2 = (if q1 \<noteq> [] \<and> trailingSeparator then q1 @ ''/'' else q1)
         in if isAbsolute then ''/'' @ q2 else q2))"

definition path_join :: "string list \<Rightarrow> string" where
  "path_join args =
     (let parts = filter (\<lambda>a. a \<noteq> []) args
      in if parts = [] then ''.'' else path_normalize (join ''/'' parts))"

text \<open>\<open>path.posix.basename(p)\<close>: the last segment, trailing separators ignored.\<close>

definition basename :: "string \<Rightarrow> string" where
  "basename p =
     rev (takeWhile (\<lambda>c. c \<noteq> CHR ''/'') (dropWhile (\<lambda>c. c = CHR ''/'') (rev p)))"

section \<open>The data model\<close>

text \<open>
  A finding, with the fields the command reads (\<open>fid\<close> and \<open>ffile\<close> are the source's \<open>id\<close> and \<open>file\<close>).
\<close>

record finding =
  fid :: string
  title :: string
  description :: string
  severity :: string
  ffile :: string
  resolutionType :: string
  resolution :: string

text \<open>
  A manifest is the parsed document with the path it was read from attached as its
  \<open>path\<close> property.
\<close>

record manifest =
  manifest_doc :: json
  manifest_path :: string

record project =
  path :: string
  configJson :: "json option"
  copyAssetsJson :: "json option"
  deployAzureStorageJson :: "json option"
  packageJson :: "json option"
  packageSolutionJson :: "json option"
  serveJson :: "json option"
  tsConfigJson :: "json option"
  tsLintJson :: "json option"
  writeManifestsJson :: "json option"
  yoRcJson :: "json option"
  manifests :: "manifest list"

section \<open>What the command does to the outside\<close>

text \<open>
  What \<open>cmd.log\<close> receives: a progress message, the project (in debug mode), and the
  report in one of its three shapes.
\<close>

datatype logged =
    OutText string
  | OutProject project
  | OutFindings "finding list"
  | OutMd string
  | OutSummary "(string \<times> string) list"

text \<open>
  The \<open>CommandError\<close> values handed to the callback, one constructor per message of
  the source: no project root, target version not supported (with the supported
  versions), version of the project not determined, version of the project not
  supported, downgrade, nothing to upgrade, and the exception caught while the rules
  of a version were loaded and run.
\<close>

datatype error =
    NoProjectRoot
  | UnsupportedTarget string "string list"
  | UndeterminedVersion
  | UnsupportedCurrent json
  | Downgrade
  | UpToDate
  | RuleFailure string

text \<open>
  The calls the command makes to the outside, in the order it makes them. \<open>FsWrite\<close>
  stands for any call of the \<open>fs\<close> module that creates, changes or removes a file.
\<close>

datatype effect =
    ExistsSync string
  | ReadFileSync string
  | FsWrite string
  | GetAllFiles string
  | Require string
  | Log logged
  | Cb "error option"

text \<open>
  A rule (\<open>project-upgrade/rules/Rule\<close>) is outside this file: \<open>visit(project,
  findings)\<close> receives the project and the shared array of findings; the model takes
  it as a function that returns the array as the call leaves it and the exception
  the call threw, if any.
\<close>

type_synonym rule = "project \<Rightarrow> finding list \<Rightarrow> finding list \<times> string option"

text \<open>
  The environment of one run: the working directory, the file system
  (\<open>readFileSync\<close> is \<open>None\<close> where the read throws), \<open>JSON.parse\<close> (\<open>None\<close> where
  it throws), the two helpers of \<open>Utils\<close> (\<open>getAllFiles\<close> is \<open>Inl\<close> where the walk
  throws), the module loader for the rules of a version (\<open>Inl\<close> where \<open>require\<close>
  throws), the date printed in the report, and the names a JavaScript array already
  answers to before anything is stored under them (\<open>length\<close>, \<open>push\<close>,
  \<open>constructor\<close>, ...).
\<close>

record env =
  cwd :: string
  existsSync :: "string \<Rightarrow> bool"
  readFileSync :: "string \<Rightarrow> string option"
  JSON_parse :: "string \<Rightarrow> json option"
  removeSingleLineComments :: "string \<Rightarrow> string"
  getAllFiles :: "string \<Rightarrow> string + string list"
  require :: "string \<Rightarrow> string + rule list"
  toLocaleDateString :: string
  array_builtin :: "string \<Rightarrow> bool"

text \<open>The options of one invocation.\<close>

record options =
  opt_toVersion :: "string option"
  opt_output :: "string option"

text \<open>
  The fields of the command object that an invocation assigns or reads; \<open>verbose\<close>
  and \<open>debug\<close> are set by the command framework from the global options.
\<close>

record command =
  projectVersion :: "json option"
  toVersion :: string
  projectRootPath :: "string option"
  allFindings :: "finding list"
  verbose :: bool
  debug :: bool

definition new_command :: command where
  "new_command =
     \<lparr> projectVersion = None, toVersion = [], projectRootPath = None, allFindings = [],
       verbose = False, debug = False \<rparr>"

text \<open>The field \<open>supportedVersions\<close> is initialised once and never assigned.\<close>

definition supportedVersions :: "string list" where
  "supportedVersions = [''1.4.1'', ''1.5.0'']"

section \<open>Finding the project and its version\<close>

text \<open>
  \<open>path.resolve(folderPath, x)\<close> as the command calls it. \<open>process.cwd()\<close> is an
  absolute path, so the result always is one: the working directory is read from the
  root whatever its first character.
\<close>

definition resolve2 :: "env \<Rightarrow> string \<Rightarrow> string \<Rightarrow> string" where
  "resolve2 env folderPath x =
     (case resolve_loop [x, folderPath] [] of
        (resolvedPath, resolvedAbsolute) \<Rightarrow>
          (let r = normalizeString
                     (if resolvedAbsolute then resolvedPath else cwd env @ ''/'' @ resolvedPath)
                     False
           in if r \<noteq> [] then ''/'' @ r else ''/''))"

text \<open>
  \<open>getProjectRoot\<close>: the folder itself when it holds a \<open>package.json\<close>, otherwise
  the search goes on in the parent folder, and stops with \<open>null\<close> (\<open>None\<close>) at the
  folder that is its own parent. The second component lists the existence checks made.
\<close>

function getProjectRoot :: "env \<Rightarrow> string \<Rightarrow> string option \<times> effect list" where
  "getProjectRoot env folderPath =
     (let packageJsonPath = resolve2 env folderPath ''package.json''
      in if existsSync env packageJsonPath then (Some folderPath, [ExistsSync packageJsonPath])
         else
           (let parentPath = resolve2 env folderPath ''../''
            in if parentPath \<noteq> folderPath then
                 (case getProjectRoot env parentPath of
                    (r, t) \<Rightarrow> (r, ExistsSync packageJsonPath # t))
               else (None, [ExistsSync packageJsonPath])))"
  by pat_completeness auto

subsection \<open>The search terminates\<close>

text \<open>
  The folders the search visits, seen as lists of names: a name is clean when it is
  a real folder name (not empty, not \<open>.\<close> or \<open>..\<close>, without separator), and
  \<open>render\<close> writes a list of names as the absolute path that \<open>path.resolve\<close> returns.
\<close>

definition clean_segment :: "string \<Rightarrow> bool" where
  "clean_segment s \<longleftrightarrow> s \<noteq> [] \<and> s \<noteq> ''.'' \<and> s \<noteq> ''..'' \<and> CHR ''/'' \<notin> set s"

definition render :: "string list \<Rightarrow> string" where
  "render segs = (if join ''/'' segs \<noteq> [] then ''/'' @ join ''/'' segs else ''/'')"

definition base_path :: "env \<Rightarrow> string \<Rightarrow> string" where
  "base_path env folderPath =
     (if folderPath = [] then cwd env
      else if hd folderPath = CHR ''/'' then folderPath
      else cwd env @ ''/'' @ folderPath)"

definition folder_segments :: "env \<Rightarrow> string \<Rightarrow> string list" where
  "folder_segments env folderPath = norm_segments False (base_path env folderPath)"

lemma split_on_not_Nil [simp]: "split_on c xs \<noteq> []"
  by (induction xs) (auto split: list.splits)

lemma split_on_append: "split_on c (xs @ c # ys) = split_on c xs @ split_on c ys"
  by (induction xs) (auto split: list.splits)

lemma split_on_no_sep: "s \<in> set (split_on c xs) \<Longrightarrow> c \<notin> set s"
  by (induction xs arbitrary: s) (auto split: list.splits if_splits)

lemma split_on_plain: "c \<notin> set xs \<Longrightarrow> split_on c xs = [xs]"
  by (induction xs) auto

lemma split_on_join:
  "segs \<noteq> [] \<Longrightarrow> \<forall>s\<in>set segs. c \<notin> set s \<Longrightarrow> split_on c (join [c] segs) = segs"
proof (induction segs)
  case Nil
  then show ?case by simp
next
  case (Cons x xs)
  show ?case
  proof (cases xs)
    case Nil
    with Cons.prems show ?thesis by (simp add: split_on_plain)
  next
    case (Cons y ys)
    have "split_on c (x @ c # join [c] (y # ys)) = split_on c x @ split_on c (join [c] (y # ys))"
      by (rule split_on_append)
    with Cons.IH Cons.prems Cons show ?thesis by (simp add: split_on_plain)
  qed
qed

lemma norm_step_clean:
  "\<forall>s\<in>set kept. clean_segment s \<Longrightarrow> CHR ''/'' \<notin> set seg \<Longrightarrow>
   \<forall>s\<in>set (norm_step False kept seg). clean_segment s"
  by (auto simp: norm_step_def clean_segment_def dest: in_set_butlastD)

lemma foldl_norm_step_clean:
  "\<forall>s\<in>set kept. clean_segment s \<Longrightarrow> \<forall>s\<in>set segs. CHR ''/'' \<notin> set s \<Longrightarrow>
   \<forall>s\<in>set (foldl (norm_step False) kept segs). clean_segment s"
proof (induction segs arbitrary: kept)
  case (Cons a segs)
  have "\<forall>s\<in>set (norm_step False kept a). clean_segment s"
    using Cons.prems by (intro norm_step_clean) auto
  with Cons show ?case by simp
qed simp

lemma norm_segments_clean: "\<forall>s\<in>set (norm_segments False p). clean_segment s"
  unfolding norm_segments_def
  by (rule foldl_norm_step_clean) (auto dest: split_on_no_sep)

lemma foldl_norm_step_id:
  "\<forall>s\<in>set segs. clean_segment s \<Longrightarrow> foldl (norm_step a) kept segs = kept @ segs"
  by (induction segs arbitrary: kept) (auto simp: norm_step_def clean_segment_def)

lemma join_Nil_iff: "\<forall>s\<in>set segs. s \<noteq> [] \<Longrightarrow> join sep segs = [] \<longleftrightarrow> segs = []"
  by (induction sep segs rule: join.induct) auto

lemma norm_segments_render:
  assumes "\<forall>s\<in>set segs. clean_segment s"
  shows "norm_segments False (render segs) = segs"
proof (cases "segs = []")
  case True
  then show ?thesis by (simp add: render_def norm_segments_def norm_step_def)
next
  case False
  have ne: "join ''/'' segs \<noteq> []"
    using assms False join_Nil_iff[of segs "''/''"] by (auto simp: clean_segment_def)
  have "split_on CHR ''/'' (join ''/'' segs) = segs"
    using assms False split_on_join[of segs "CHR ''/''"] by (auto simp: clean_segment_def)
  then have "split_on CHR ''/'' (render segs) = [] # segs"
    using ne by (simp add: render_def)
  then show ?thesis
    using assms by (simp add: norm_segments_def norm_step_def foldl_norm_step_id)
qed

lemma resolve2_eq:
  assumes "x \<noteq> []" "hd x \<noteq> CHR ''/''"
  shows "resolve2 env folderPath x =
           render (norm_segments False (base_path env folderPath @ ''/'' @ x @ ''/''))"
  using assms by (auto simp: resolve2_def base_path_def render_def normalizeString_def)

lemma norm_segments_parent:
  "norm_segments False (p @ ''/'' @ ''../'' @ ''/'') = butlast (norm_segments False p)"
proof -
  have "split_on CHR ''/'' (p @ ''/'' @ ''../'' @ ''/'') = split_on CHR ''/'' p @ [''..'', [], []]"
    using split_on_append[of "CHR ''/''" p "''..//''"] by simp
  moreover have "''..'' \<notin> set (norm_segments False p)"
    using norm_segments_clean[of p] by (auto simp: clean_segment_def)
  ultimately show ?thesis
    by (cases "norm_segments False p = []")
       (auto simp: norm_segments_def norm_step_def dest: last_in_set)
qed

lemma resolve2_parent:
  "resolve2 env folderPath ''../'' = render (butlast (folder_segments env folderPath))"
  using resolve2_eq[of "''../''" env folderPath] norm_segments_parent[of "base_path env folderPath"]
  by (simp add: folder_segments_def)

lemma folder_segments_render:
  "\<forall>s\<in>set segs. clean_segment s \<Longrightarrow> folder_segments env (render segs) = segs"
  by (simp add: folder_segments_def base_path_def norm_segments_render) (simp add: render_def)

lemma folder_segments_parent:
  "folder_segments env (resolve2 env folderPath ''../'') = butlast (folder_segments env folderPath)"
proof -
  have "\<forall>s\<in>set (butlast (folder_segments env folderPath)). clean_segment s"
    using norm_segments_clean[of "base_path env folderPath"]
    by (auto simp: folder_segments_def dest: in_set_butlastD)
  then show ?thesis by (simp add: resolve2_parent folder_segments_render)
qed

termination getProjectRoot
proof (relation "measure (\<lambda>(env, folderPath).
          2 * length (folder_segments env folderPath)
          + (if folderPath = render (folder_segments env folderPath) then 0 else 1))")
  show "wf (measure (\<lambda>(env, folderPath).
          2 * length (folder_segments env folderPath)
          + (if folderPath = render (folder_segments env folderPath) then 0 else 1)))"
    by simp
next
  fix env :: env and folderPath x xa
  assume x: "x = resolve2 env folderPath ''package.json''"
    and xa: "xa = resolve2 env folderPath ''../''" and ne: "xa \<noteq> folderPath"
  let ?S = "folder_segments env folderPath"
  have p: "xa = render (butlast ?S)" using xa by (simp add: resolve2_parent)
  have s: "folder_segments env xa = butlast ?S" using xa by (simp add: folder_segments_parent)
  show "((env, xa), (env, folderPath)) \<in> measure (\<lambda>(env, folderPath).
          2 * length (folder_segments env folderPath)
          + (if folderPath = render (folder_segments env folderPath) then 0 else 1))"
  proof (cases "?S = []")
    case True
    with p s ne show ?thesis by auto
  next
    case False
    then have "length (butlast ?S) < length ?S" by (cases ?S rule: rev_cases) auto
    with p s show ?thesis by auto
  qed
qed


declare getProjectRoot.simps [simp del]

section \<open>Reading the project\<close>

text \<open>
  \<open>getProjectVersion\<close>: the version the generator recorded in \<open>.yo-rc.json\<close>, or
  else the version of \<open>@microsoft/sp-core-library\<close> in \<open>package.json\<close> with every
  character but digits and dots removed. \<open>replace\<close> exists on strings only: on any
  other truthy value the call throws, and the \<open>catch\<close> leaves \<open>undefined\<close>.
\<close>

definition yoRc_version :: "json \<Rightarrow> json option" where
  "yoRc_version yoRc =
     (if truthy yoRc then
        (case js_prop yoRc ''@microsoft/generator-sharepoint'' of
           None \<Rightarrow> None
         | Some g \<Rightarrow>
             (if truthy g then
                (case js_prop g ''version'' of
                   None \<Rightarrow> None
                 | Some v \<Rightarrow> if truthy v then Some v else None)
              else None))
      else None)"

definition version_char :: "char \<Rightarrow> bool" where
  "version_char c \<longleftrightarrow> (48 \<le> (of_char c :: nat) \<and> (of_char c :: nat) \<le> 57) \<or> c = CHR ''.''"

definition coreLib_version :: "json \<Rightarrow> json option" where
  "coreLib_version pkg =
     (if truthy pkg then
        (case js_prop pkg ''dependencies'' of
           None \<Rightarrow> None
         | Some d \<Rightarrow>
             (if truthy d then
                (case js_prop d ''@microsoft/sp-core-library'' of
                   None \<Rightarrow> None
                 | Some (JStr coreLibVersion) \<Rightarrow>
                     (if coreLibVersion \<noteq> [] then Some (JStr (filter version_char coreLibVersion))
                      else None)
                 | Some v \<Rightarrow> None)
              else None))
      else None)"

definition getProjectVersion :: "env \<Rightarrow> string \<Rightarrow> json option \<times> effect list" where
  "getProjectVersion env rootPath =
     (let yoRcPath = resolve2 env rootPath ''.yo-rc.json'';
          packageJsonPath = resolve2 env rootPath ''package.json'';
          fromYoRc =
            (if existsSync env yoRcPath then
               (case readFileSync env yoRcPath of
                  None \<Rightarrow> None
                | Some s \<Rightarrow>
                    (case JSON_parse env s of
                       None \<Rightarrow> None
                     | Some yoRc \<Rightarrow> yoRc_version yoRc))
             else None);
          t1 = ExistsSync yoRcPath # (if existsSync env yoRcPath then [ReadFileSync yoRcPath] else [])
      in case fromYoRc of
           Some v \<Rightarrow> (Some v, t1)
         | None \<Rightarrow>
             ((case readFileSync env packageJsonPath of
                 None \<Rightarrow> None
               | Some s \<Rightarrow>
                   (case JSON_parse env s of
                      None \<Rightarrow> None
                    | Some pkg \<Rightarrow> coreLib_version pkg)),
              t1 @ [ReadFileSync packageJsonPath]))"

text \<open>
  The block \<open>getProject\<close> repeats for each of its ten documents: when the file
  exists it is read, its comments are removed and it is parsed; whatever is thrown on
  the way is swallowed by the empty \<open>catch\<close>, and the slot stays unset (\<open>None\<close>).
\<close>

definition readDoc :: "env \<Rightarrow> string \<Rightarrow> json option \<times> effect list" where
  "readDoc env p =
     (if existsSync env p then
        ((case readFileSync env p of
            None \<Rightarrow> None
          | Some s \<Rightarrow> JSON_parse env (removeSingleLineComments env s)),
         [ExistsSync p, ReadFileSync p])
      else (None, [ExistsSync p]))"

text \<open>
  \<open>manifest.path = f\<close> in a module, which is strict code: on an object the property
  is set, in place when the document has an entry \<open>path\<close> of its own and as a new last
  entry otherwise; on an array it is set beside the elements; on \<open>null\<close> or a
  primitive value the assignment throws and the manifest is not kept.
\<close>

definition set_own :: "(string \<times> json) list \<Rightarrow> string \<Rightarrow> json \<Rightarrow> (string \<times> json) list" where
  "set_own kvs k v =
     (if k \<in> fst ` set kvs then map (\<lambda>(k', v'). if k' = k then (k', v) else (k', v')) kvs
      else kvs @ [(k, v)])"

fun attach_path :: "json \<Rightarrow> string \<Rightarrow> manifest option" where
  "attach_path (JObj kvs) f =
     Some \<lparr> manifest_doc = JObj (set_own kvs ''path'' (JStr f)), manifest_path = f \<rparr>"
| "attach_path (JArr xs) f = Some \<lparr> manifest_doc = JArr xs, manifest_path = f \<rparr>"
| "attach_path v f = None"

fun readManifests :: "env \<Rightarrow> string list \<Rightarrow> manifest list \<times> effect list" where
  "readManifests env [] = ([], [])"
| "readManifests env (f # files) =
     (case readManifests env files of
        (ms, t) \<Rightarrow>
          (if endsWith f ''.manifest.json'' then
             (case readFileSync env f of
                None \<Rightarrow> (ms, ReadFileSync f # t)
              | Some manifestStr \<Rightarrow>
                  (case JSON_parse env (removeSingleLineComments env manifestStr) of
                     None \<Rightarrow> (ms, ReadFileSync f # t)
                   | Some m \<Rightarrow>
                       (case attach_path m f of
                          None \<Rightarrow> (ms, ReadFileSync f # t)
                        | Some m' \<Rightarrow> (m' # ms, ReadFileSync f # t))))
           else (ms, t)))"

text \<open>
  \<open>getProject\<close>. The walk over \<open>src\<close> is not guarded: when \<open>Utils.getAllFiles\<close>
  throws, so does \<open>getProject\<close> (\<open>Inl\<close>).
\<close>

definition getProject :: "env \<Rightarrow> string \<Rightarrow> (string + project) \<times> effect list" where
  "getProject env rootPath =
     (case readDoc env (path_join [rootPath, ''config/config.json'']) of (d1, t1) \<Rightarrow>
      case readDoc env (path_join [rootPath, ''config/copy-assets.json'']) of (d2, t2) \<Rightarrow>
      case readDoc env (path_join [rootPath, ''config/deploy-azure-storage.json'']) of (d3, t3) \<Rightarrow>
      case readDoc env (path_join [rootPath, ''package.json'']) of (d4, t4) \<Rightarrow>
      case readDoc env (path_join [rootPath, ''config/package-solution.json'']) of (d5, t5) \<Rightarrow>
      case readDoc env (path_join [rootPath, ''config/serve.json'']) of (d6, t6) \<Rightarrow>
      case readDoc env (path_join [rootPath, ''tsconfig.json'']) of (d7, t7) \<Rightarrow>
      case readDoc env (path_join [rootPath, ''config/tslint.json'']) of (d8, t8) \<Rightarrow>
      case readDoc env (path_join [rootPath, ''config/write-manifests.json'']) of (d9, t9) \<Rightarrow>
      case readDoc env (path_join [rootPath, ''.yo-rc.json'']) of (d10, t10) \<Rightarrow>
        (let srcPath = path_join [rootPath, ''src''];
             t = t1 @ t2 @ t3 @ t4 @ t5 @ t6 @ t7 @ t8 @ t9 @ t10 @ [GetAllFiles srcPath]
         in case getAllFiles env srcPath of
              Inl e \<Rightarrow> (Inl e, t)
            | Inr files \<Rightarrow>
                (case readManifests env files of
                   (ms, tm) \<Rightarrow>
                     (Inr \<lparr> path = rootPath, configJson = d1, copyAssetsJson = d2,
                            deployAzureStorageJson = d3, packageJson = d4,
                            packageSolutionJson = d5, serveJson = d6, tsConfigJson = d7,
                            tsLintJson = d8, writeManifestsJson = d9, yoRcJson = d10,
                            manifests = ms \<rparr>,
                      t @ tm))))"

section \<open>The Markdown report\<close>

text \<open>
  \<open>getMdReport\<close> keeps the modifications of each file in two arrays that it uses as
  dictionaries. The own string-keyed properties of such an object are an association
  list in the order of their creation.
\<close>

type_synonym 'v jsdict = "(string \<times> 'v) list"

definition dict_get :: "'v jsdict \<Rightarrow> string \<Rightarrow> 'v option" where
  "dict_get d k = map_of d k"

definition dict_set :: "'v jsdict \<Rightarrow> string \<Rightarrow> 'v \<Rightarrow> 'v jsdict" where
  "dict_set d k v =
     (case map_of d k of
        None \<Rightarrow> d @ [(k, v)]
      | Some old \<Rightarrow> map (\<lambda>(k', v'). if k' = k then (k', v) else (k', v')) d)"

text \<open>
  A key is an array index when it is the canonical decimal writing of an integer
  below \<open>2^32 - 1\<close>. \<open>Object.keys\<close> lists the array indices first, in ascending
  numeric order, and then the other keys in the order of their creation.
\<close>

definition digit :: "char \<Rightarrow> bool" where
  "digit c \<longleftrightarrow> 48 \<le> (of_char c :: nat) \<and> (of_char c :: nat) \<le> 57"

definition decimal_value :: "string \<Rightarrow> int" where
  "decimal_value s = foldl (\<lambda>n c. 10 * n + (of_char c - 48)) 0 s"

definition array_index :: "string \<Rightarrow> int option" where
  "array_index s =
     (if s \<noteq> [] \<and> list_all digit s \<and> (s = ''0'' \<or> hd s \<noteq> CHR ''0'')
         \<and> decimal_value s < 2 ^ 32 - 1
      then Some (decimal_value s) else None)"

definition is_array_index :: "string \<Rightarrow> bool" where
  "is_array_index s \<longleftrightarrow> array_index s \<noteq> None"

definition index_value :: "string \<Rightarrow> int" where
  "index_value s = (case array_index s of None \<Rightarrow> 0 | Some n \<Rightarrow> n)"

definition object_keys :: "'v jsdict \<Rightarrow> string list" where
  "object_keys d =
     sort_key index_value (filter is_array_index (map fst d))
     @ filter (\<lambda>k. \<not> is_array_index k) (map fst d)"

text \<open>The four accumulators of \<open>getMdReport\<close>.\<close>

record md_state =
  commandsToExecute :: "string list"
  findingsToReport :: "string list"
  modificationPerFile :: "string list jsdict"
  modificationTypePerFile :: "string jsdict"

definition nl :: string where
  "nl = [CHR 0x0A]"

definition resolution_text :: "finding \<Rightarrow> string" where
  "resolution_text f =
     (if resolutionType f = ''cmd'' then
        ''Execute the following command:'' @ nl @ nl @ ''```sh'' @ nl
        @ resolution f @ nl @ ''```'' @ nl
      else if resolutionType f = ''json'' then
        ''In file ['' @ ffile f @ ''](''  @ ffile f @ '') update the code as follows:''
        @ nl @ nl @ ''```json'' @ nl @ resolution f @ nl @ ''```'' @ nl
      else [])"

definition finding_block :: "finding \<Rightarrow> string list" where
  "finding_block f =
     [''### '' @ fid f @ '' '' @ title f @ '' | '' @ severity f, EOL,
      EOL,
      description f, EOL,
      EOL,
      resolution_text f,
      EOL,
      ''File: ['' @ ffile f @ ''](''  @ ffile f @ '')'', EOL,
      EOL]"

text \<open>
  The body of the \<open>forEach\<close> over the findings. The two dictionaries are arrays, so
  under a name that an array already answers to (\<open>array_builtin\<close>) the lookup
  \<open>modificationPerFile[f.file]\<close> finds the built-in value instead of a list of
  modifications, and the code leaves the path described here: for most such names
  the \<open>push\<close> throws a \<open>TypeError\<close>, under \<open>length\<close> the assignment of the type may
  throw a \<open>RangeError\<close> first, and under \<open>__proto__\<close> the \<open>push\<close> lands on
  \<open>Array.prototype\<close> and the group is lost. The model does not follow the code
  there: it stops with \<open>Inl\<close>, and every statement below about the report excludes
  these names. A stored list is truthy even when empty; a stored type is falsy when
  it is the empty string.
\<close>

definition md_step :: "env \<Rightarrow> md_state \<Rightarrow> finding \<Rightarrow> string + md_state" where
  "md_step env st f =
     (if resolutionType f = ''cmd'' then
        Inr (st\<lparr> commandsToExecute := commandsToExecute st @ [resolution f],
                 findingsToReport := findingsToReport st @ finding_block f \<rparr>)
      else if array_builtin env (ffile f) then Inl ''built-in array property''
      else
        (let mpf1 = (case dict_get (modificationPerFile st) (ffile f) of
                       None \<Rightarrow> dict_set (modificationPerFile st) (ffile f) []
                     | Some ms \<Rightarrow> modificationPerFile st);
             mtpf1 = (case dict_get (modificationTypePerFile st) (ffile f) of
                        None \<Rightarrow> dict_set (modificationTypePerFile st) (ffile f) (resolutionType f)
                      | Some t \<Rightarrow>
                          (if t = [] then
                             dict_set (modificationTypePerFile st) (ffile f) (resolutionType f)
                           else modificationTypePerFile st));
             mpf2 = (case dict_get mpf1 (ffile f) of
                       None \<Rightarrow> mpf1
                     | Some ms \<Rightarrow> dict_set mpf1 (ffile f) (ms @ [resolution f]))
         in Inr (st\<lparr> findingsToReport := findingsToReport st @ finding_block f,
                     modificationPerFile := mpf2,
                     modificationTypePerFile := mtpf1 \<rparr>)))"

fun md_forEach :: "env \<Rightarrow> md_state \<Rightarrow> finding list \<Rightarrow> string + md_state" where
  "md_forEach env st [] = Inr st"
| "md_forEach env st (f # fs) =
     (case md_step env st f of
        Inl e \<Rightarrow> Inl e
      | Inr st' \<Rightarrow> md_forEach env st' fs)"

definition md_init :: md_state where
  "md_init = \<lparr> commandsToExecute = [], findingsToReport = [],
               modificationPerFile = [], modificationTypePerFile = [] \<rparr>"

text \<open>
  The part of the summary under \<open>### Modify files\<close>: one group for each key of
  \<open>modificationPerFile\<close>, and in a group one fenced block for each modification,
  tagged with the type stored for the file.
\<close>

definition file_type :: "md_state \<Rightarrow> string \<Rightarrow> string" where
  "file_type st k =
     (case dict_get (modificationTypePerFile st) k of None \<Rightarrow> ''undefined'' | Some t \<Rightarrow> t)"

definition file_modifications :: "md_state \<Rightarrow> string \<Rightarrow> string list" where
  "file_modifications st k =
     (case dict_get (modificationPerFile st) k of None \<Rightarrow> [] | Some ms \<Rightarrow> ms)"

definition fenced :: "string \<Rightarrow> string \<Rightarrow> string" where
  "fenced t m = ''```'' @ t @ EOL @ m @ EOL @ ''```''"

definition file_group :: "string \<Rightarrow> string \<Rightarrow> string list \<Rightarrow> string" where
  "file_group k t ms =
     concat [''#### ['' @ k @ ''](''  @ k @ '')'', EOL,
             EOL,
             join (EOL @ EOL) (map (fenced t) ms), EOL]"

definition modify_files :: "md_state \<Rightarrow> string" where
  "modify_files st =
     join EOL (map (\<lambda>k. file_group k (file_type st k) (file_modifications st k))
                   (object_keys (modificationPerFile st)))"

definition getMdReport :: "env \<Rightarrow> command \<Rightarrow> finding list \<Rightarrow> string + string" where
  "getMdReport env this findings =
     (case md_forEach env md_init findings of
        Inl e \<Rightarrow> Inl e
      | Inr st \<Rightarrow>
          (case projectRootPath this of
             None \<Rightarrow> Inl ''TypeError''
           | Some rootPath \<Rightarrow>
               Inr (trim (concat
                 [''# Upgrade project '' @ basename rootPath @ '' to v'' @ toVersion this, EOL,
                  EOL,
                  ''Date: '' @ toLocaleDateString env, EOL,
                  EOL,
                  ''## Findings'', EOL,
                  EOL,
                  ''Following is the list of steps required to upgrade your project to SharePoint Framework version ''
                    @ toVersion this @ ''.'', EOL,
                  EOL,
                  concat (findingsToReport st),
                  ''## Summary'', EOL,
                  EOL,
                  ''### Execute script'', EOL,
                  EOL,
                  ''```sh'', EOL,
                  join EOL (commandsToExecute st), EOL,
                  ''```'', EOL,
                  EOL,
                  ''### Modify files'', EOL,
                  EOL,
                  modify_files st,
                  EOL]))))"

section \<open>The command\<close>

text \<open>
  The versions to upgrade to: the supported versions after the position of the
  version of the project, most recent first.
\<close>

definition versionsToUpgradeTo :: "string list \<Rightarrow> int \<Rightarrow> string list" where
  "versionsToUpgradeTo versions pos = rev (slice_from versions (pos + 1))"

text \<open>
  \<open>rules.forEach(r => r.visit(project, this.allFindings))\<close>: the first exception
  ends the loop, and the array keeps what was put into it until then.
\<close>

fun visit_rules :: "project \<Rightarrow> rule list \<Rightarrow> finding list \<Rightarrow> finding list \<times> string option" where
  "visit_rules p [] acc = (acc, None)"
| "visit_rules p (r # rs) acc =
     (case r p acc of
        (acc', Some e) \<Rightarrow> (acc', Some e)
      | (acc', None) \<Rightarrow> visit_rules p rs acc')"

text \<open>
  \<open>versionsToUpgradeTo.forEach(v => { try { ... } catch (e) { cb(new CommandError(e));
  return; } })\<close>: the \<open>return\<close> leaves the arrow function only, so after the callback
  got the error the loop goes on with the next version.
\<close>

fun upgrade_versions ::
  "env \<Rightarrow> project \<Rightarrow> string list \<Rightarrow> finding list \<Rightarrow> finding list \<times> effect list" where
  "upgrade_versions env p [] acc = (acc, [])"
| "upgrade_versions env p (v # vs) acc =
     (let m = ''./project-upgrade/upgrade-'' @ v
      in case require env m of
           Inl e \<Rightarrow>
             (case upgrade_versions env p vs acc of
                (acc', t) \<Rightarrow> (acc', Require m # Cb (Some (RuleFailure e)) # t))
         | Inr rules \<Rightarrow>
             (case visit_rules p rules acc of
                (acc1, Some e) \<Rightarrow>
                  (case upgrade_versions env p vs acc1 of
                     (acc', t) \<Rightarrow> (acc', Require m # Cb (Some (RuleFailure e)) # t))
              | (acc1, None) \<Rightarrow>
                  (case upgrade_versions env p vs acc1 of
                     (acc', t) \<Rightarrow> (acc', Require m # t))))"

text \<open>The filter under the comment \<open>// dedupe\<close>.\<close>

definition dedupe :: "finding list \<Rightarrow> finding list" where
  "dedupe all = filter_indexed (\<lambda>f i. i = findIndex (\<lambda>f1. fid f1 = fid f) all) all"

text \<open>
  The \<open>switch\<close> on the output option: what is logged, or the exception that leaves
  \<open>getMdReport\<close>.
\<close>

definition report :: "env \<Rightarrow> command \<Rightarrow> string option \<Rightarrow> finding list \<Rightarrow> string + logged" where
  "report env this out findings =
     (if out = Some ''json'' then Inr (OutFindings findings)
      else if out = Some ''md'' then
        (case getMdReport env this findings of
           Inl e \<Rightarrow> Inl e
         | Inr s \<Rightarrow> Inr (OutMd s))
      else Inr (OutSummary (map (\<lambda>f. (fid f, resolution f)) findings)))"

text \<open>
  The position of the version of the project among the supported versions:
  \<open>indexOf\<close> compares with \<open>===\<close>, so only a string can be found.
\<close>

definition version_pos :: "json \<Rightarrow> int" where
  "version_pos v = (case v of JStr s \<Rightarrow> indexOf supportedVersions s | _ \<Rightarrow> - 1)"

text \<open>
  \<open>args.options.toVersion ? args.options.toVersion : (the last supported version)\<close>:
  an option that is not given or is the empty string is falsy.
\<close>

definition requested_toVersion :: "options \<Rightarrow> string" where
  "requested_toVersion args =
     (case opt_toVersion args of
        None \<Rightarrow> last supportedVersions
      | Some v \<Rightarrow> if v \<noteq> [] then v else last supportedVersions)"

text \<open>
  What an invocation leaves: the calls made to the outside in their order, the
  exception that left \<open>commandAction\<close> uncaught, if any, and the command object.
\<close>

record outcome =
  effects :: "effect list"
  thrown :: "string option"
  final :: command

text \<open>
  \<open>commandAction\<close> is given in three parts that follow the source from its end to
  its start. The last part (from \<open>Collecting project...\<close> on) runs once both versions
  are accepted: it reads the project, runs the rules of each version to upgrade to,
  removes the duplicates and logs the report.
\<close>

definition after :: "effect list \<Rightarrow> outcome \<Rightarrow> outcome" where
  "after t out = out\<lparr> effects := t @ effects out \<rparr>"

definition upgrade_project :: "env \<Rightarrow> command \<Rightarrow> options \<Rightarrow> string \<Rightarrow> int \<Rightarrow> outcome" where
  "upgrade_project env this3 args rootPath pos =
     (let tv = (if verbose this3 then [Log (OutText ''Collecting project...'')] else [])
      in case getProject env rootPath of
        (Inl e, t2) \<Rightarrow> \<lparr> effects = tv @ t2, thrown = Some e, final = this3 \<rparr>
      | (Inr p, t2) \<Rightarrow>
      let td = (if debug this3 then [Log (OutText ''Collected project''), Log (OutProject p)] else [])
      in case upgrade_versions env p (versionsToUpgradeTo supportedVersions pos) (allFindings this3)
         of (all, t3) \<Rightarrow>
      let this4 = this3\<lparr> allFindings := all \<rparr>;
          findings = dedupe all
      in case report env this4 (opt_output args) findings of
        Inl e \<Rightarrow> \<lparr> effects = tv @ t2 @ td @ t3, thrown = Some e, final = this4 \<rparr>
      | Inr l \<Rightarrow>
          \<lparr> effects = tv @ t2 @ td @ t3 @ [Log l, Cb None], thrown = None, final = this4 \<rparr>)"

text \<open>
  The middle part: the version of the project is looked up and compared with the
  target by position among the supported versions.
\<close>

definition check_project_version :: "env \<Rightarrow> command \<Rightarrow> options \<Rightarrow> string \<Rightarrow> outcome" where
  "check_project_version env this2 args rootPath =
     (case getProjectVersion env rootPath of (version, t1) \<Rightarrow>
      let this3 = this2\<lparr> projectVersion := version \<rparr>
      in case version of
        None \<Rightarrow> \<lparr> effects = t1 @ [Cb (Some UndeterminedVersion)], thrown = None, final = this3 \<rparr>
      | Some v \<Rightarrow>
      if \<not> truthy v then
        \<lparr> effects = t1 @ [Cb (Some UndeterminedVersion)], thrown = None, final = this3 \<rparr>
      else
      let pos = version_pos v
      in if pos < 0 then
           \<lparr> effects = t1 @ [Cb (Some (UnsupportedCurrent v))], thrown = None, final = this3 \<rparr>
      else if pos > indexOf supportedVersions (toVersion this3) then
           \<lparr> effects = t1 @ [Cb (Some Downgrade)], thrown = None, final = this3 \<rparr>
      else if pos = indexOf supportedVersions (toVersion this3) then
           \<lparr> effects = t1 @ [Cb (Some UpToDate)], thrown = None, final = this3 \<rparr>
      else after t1 (upgrade_project env this3 args rootPath pos))"

text \<open>
  The first part: the project root is searched from the working directory, and the
  target version is checked.
\<close>

definition commandAction :: "env \<Rightarrow> command \<Rightarrow> options \<Rightarrow> outcome" where
  "commandAction env this0 args =
     (case getProjectRoot env (cwd env) of (rootOpt, t0) \<Rightarrow>
      let this1 = this0\<lparr> projectRootPath := rootOpt \<rparr>
      in case rootOpt of
        None \<Rightarrow> \<lparr> effects = t0 @ [Cb (Some NoProjectRoot)], thrown = None, final = this1 \<rparr>
      | Some rootPath \<Rightarrow>
      let this2 = this1\<lparr> toVersion := requested_toVersion args \<rparr>
      in if indexOf supportedVersions (toVersion this2) < 0 then
           \<lparr> effects = t0 @ [Cb (Some (UnsupportedTarget (toVersion this2) supportedVersions))],
             thrown = None, final = this2 \<rparr>
      else after t0 (check_project_version env this2 args rootPath))"

text \<open>A logged value is a report when it is one of the three output shapes.\<close>

fun is_report :: "logged \<Rightarrow> bool" where
  "is_report (OutFindings fs) = True"
| "is_report (OutMd s) = True"
| "is_report (OutSummary rs) = True"
| "is_report l = False"

definition reports :: "effect list \<Rightarrow> logged list" where
  "reports t = concat (map (\<lambda>e. case e of Log l \<Rightarrow> (if is_report l then [l] else []) | _ \<Rightarrow> []) t)"

definition callbacks :: "effect list \<Rightarrow> error option list" where
  "callbacks t = concat (map (\<lambda>e. case e of Cb r \<Rightarrow> [r] | _ \<Rightarrow> []) t)"

section \<open>Example data\<close>

definition mk_finding :: "string \<Rightarrow> string \<Rightarrow> string \<Rightarrow> string \<Rightarrow> finding" where
  "mk_finding i fl rt r =
     \<lparr> fid = i, title = ''Title'', description = ''Description'', severity = ''Required'',
       ffile = fl, resolutionType = rt, resolution = r \<rparr>"

text \<open>
  The names an empty array answers to in the Node releases of the command's time:
  its own \<open>length\<close> and what it inherits from \<open>Array.prototype\<close> and
  \<open>Object.prototype\<close>.
\<close>

definition array_builtin_names :: "string list" where
  "array_builtin_names =
     [''length'', ''constructor'', ''concat'', ''copyWithin'', ''fill'', ''find'',
      ''findIndex'', ''lastIndexOf'', ''pop'', ''push'', ''reverse'', ''shift'', ''unshift'',
      ''slice'', ''sort'', ''splice'', ''includes'', ''indexOf'', ''join'', ''keys'',
      ''entries'', ''values'', ''forEach'', ''filter'', ''map'', ''every'', ''some'',
      ''reduce'', ''reduceRight'', ''toLocaleString'', ''toString'', ''hasOwnProperty'',
      ''isPrototypeOf'', ''propertyIsEnumerable'', ''valueOf'', ''__proto__'',
      ''__defineGetter__'', ''__defineSetter__'', ''__lookupGetter__'',
      ''__lookupSetter__'']"

text \<open>
  An environment from a table of files, a table of what \<open>JSON.parse\<close> makes of
  their contents, the files under \<open>src\<close>, and the rule modules.
\<close>

definition mk_env ::
  "(string \<times> string) list \<Rightarrow> (string \<times> json) list \<Rightarrow> string list
   \<Rightarrow> (string \<Rightarrow> string + rule list) \<Rightarrow> env" where
  "mk_env files parses walk modules =
     \<lparr> cwd = ''/home/user/project/src'',
       existsSync = (\<lambda>p. map_of files p \<noteq> None),
       readFileSync = map_of files,
       JSON_parse = map_of parses,
       removeSingleLineComments = (\<lambda>s. s),
       getAllFiles = (\<lambda>p. Inr walk),
       require = modules,
       toLocaleDateString = ''2018-6-1'',
       array_builtin = (\<lambda>k. k \<in> set array_builtin_names) \<rparr>"

text \<open>Rule modules that load and hold no rule.\<close>

definition no_rules :: "string \<Rightarrow> string + rule list" where
  "no_rules m = Inr []"

definition yoRc :: "string \<Rightarrow> json" where
  "yoRc v = JObj [(''@microsoft/generator-sharepoint'', JObj [(''version'', JStr v)])]"

text \<open>
  A project at \<open>/home/user/project\<close>, generated with the given version, with one
  manifest and a \<open>tsconfig.json\<close> that does not parse; the working directory is its
  \<open>src\<close> folder.
\<close>

definition project_env :: "string \<Rightarrow> (string \<Rightarrow> string + rule list) \<Rightarrow> env" where
  "project_env v modules =
     mk_env [(''/home/user/project/package.json'', ''{}''),
             (''/home/user/project/.yo-rc.json'', ''yo-rc''),
             (''/home/user/project/tsconfig.json'', ''{ malformed''),
             (''/home/user/project/src/a.manifest.json'', ''{}''),
             (''/home/user/project/src/b.manifest.json'', ''{ malformed'')]
            [(''{}'', JObj []), (''yo-rc'', yoRc v)]
            [''/home/user/project/src/a.manifest.json'', ''/home/user/project/src/b.manifest.json'',
             ''/home/user/project/src/index.ts'']
            modules"

section \<open>Deduplication\<close>

lemma findIndex_from_ge: "findIndex_from P xs k = - 1 \<or> k \<le> findIndex_from P xs k"
  by (induction xs arbitrary: k) (auto, force)

lemma findIndex_from_iff:
  "i < length xs \<Longrightarrow> 0 \<le> k \<Longrightarrow>
   findIndex_from P xs k = k + int i \<longleftrightarrow> P (xs ! i) \<and> (\<forall>j<i. \<not> P (xs ! j))"
proof (induction xs arbitrary: i k)
  case Nil
  then show ?case by simp
next
  case (Cons x xs)
  show ?case
  proof (cases i)
    case 0
    show ?thesis
    proof (cases "P x")
      case True
      with 0 show ?thesis by simp
    next
      case False
      have "findIndex_from P xs (k + 1) \<noteq> k"
        using findIndex_from_ge[of P xs "k + 1"] Cons.prems by auto
      with False 0 show ?thesis by simp
    qed
  next
    case (Suc i')
    have ih: "findIndex_from P xs (k + 1) = (k + 1) + int i' \<longleftrightarrow>
              P (xs ! i') \<and> (\<forall>j<i'. \<not> P (xs ! j))"
      using Cons.IH[of i' "k + 1"] Cons.prems Suc by simp
    show ?thesis
    proof (cases "P x")
      case True
      with Suc Cons.prems show ?thesis by auto
    next
      case False
      have "(\<forall>j<Suc i'. \<not> P ((x # xs) ! j)) \<longleftrightarrow> (\<forall>j<i'. \<not> P (xs ! j))"
        using False by (auto simp: less_Suc_eq_0_disj)
      then show ?thesis using False Suc ih by (simp add: algebra_simps)
    qed
  qed
qed

lemma findIndex_iff:
  "i < length xs \<Longrightarrow> findIndex P xs = int i \<longleftrightarrow> P (xs ! i) \<and> (\<forall>j<i. \<not> P (xs ! j))"
  using findIndex_from_iff[of i xs 0 P] by (simp add: findIndex_def)

lemma zip_upt_nth: "zip xs [0..<length xs] = map (\<lambda>i. (xs ! i, i)) [0..<length xs]"
  by (rule nth_equalityI) auto

lemma filter_indexed_nth:
  "filter_indexed p xs = map (\<lambda>i. xs ! i) (filter (\<lambda>i. p (xs ! i) (int i)) [0..<length xs])"
  by (simp add: filter_indexed_def zip_upt_nth filter_map comp_def)


text \<open>
  C2: the deduplication keeps exactly the findings at the positions where their id
  occurs for the first time, in the order of these positions: for each id the first
  finding that carries it is kept, every later one is dropped, and the kept findings
  stay in their input order.
\<close>

theorem dedupe_first_occurrence:
  "dedupe all =
     map (\<lambda>i. all ! i)
         (filter (\<lambda>i. \<forall>j<i. fid (all ! j) \<noteq> fid (all ! i)) [0..<length all])"
proof -
  have "filter (\<lambda>i. int i = findIndex (\<lambda>f1. fid f1 = fid (all ! i)) all) [0..<length all]
        = filter (\<lambda>i. \<forall>j<i. fid (all ! j) \<noteq> fid (all ! i)) [0..<length all]"
    by (rule filter_cong) (auto simp: findIndex_iff eq_commute[of "int _"])
  then show ?thesis by (simp add: dedupe_def filter_indexed_nth)
qed


theorem dedupe_first_occurrence_witness:
  "dedupe [mk_finding ''FN001'' ''./package.json'' ''cmd'' ''npm i a'',
           mk_finding ''FN002'' ''./package.json'' ''cmd'' ''npm i b'',
           mk_finding ''FN001'' ''./package.json'' ''cmd'' ''different text'']
   = [mk_finding ''FN001'' ''./package.json'' ''cmd'' ''npm i a'',
      mk_finding ''FN002'' ''./package.json'' ''cmd'' ''npm i b'']"
  using dedupe_first_occurrence
    [of "[mk_finding ''FN001'' ''./package.json'' ''cmd'' ''npm i a'',
          mk_finding ''FN002'' ''./package.json'' ''cmd'' ''npm i b'',
          mk_finding ''FN001'' ''./package.json'' ''cmd'' ''different text'']"]
  by (simp add: mk_finding_def upt_rec less_Suc_eq numeral_3_eq_3)

section \<open>Planning the versions\<close>

lemma slice_from_nonneg: "0 \<le> start \<Longrightarrow> slice_from xs start = drop (nat start) xs"
  by (auto simp: slice_from_def Let_def min_def)

lemma versionsToUpgradeTo_drop:
  "0 \<le> pos \<Longrightarrow> versionsToUpgradeTo versions pos = rev (drop (nat pos + 1) versions)"
  by (simp add: versionsToUpgradeTo_def slice_from_nonneg nat_add_distrib)

lemma indexOf_supported:
  "indexOf supportedVersions v = (if v = ''1.4.1'' then 0 else if v = ''1.5.0'' then 1 else - 1)"
  by (simp add: indexOf_def findIndex_def supportedVersions_def)

lemma set_supported: "v \<in> set supportedVersions \<longleftrightarrow> v = ''1.4.1'' \<or> v = ''1.5.0''"
  by (simp add: supportedVersions_def)









section \<open>The summary output\<close>

text \<open>
  C8: when the output option is neither \<open>json\<close> nor \<open>md\<close>, what is logged is the
  list that holds, for each finding and in the order of the findings, the record of
  its id and its resolution; for no findings it is the empty list.
\<close>

theorem summary_output:
  assumes "out \<noteq> Some ''json''" and "out \<noteq> Some ''md''"
  shows "report env this out findings
         = Inr (OutSummary (map (\<lambda>f. (fid f, resolution f)) findings))"
  using assms by (simp add: report_def)

theorem summary_output_witness:
  "report (project_env ''1.4.1'' (\<lambda>m. Inr [])) new_command None [] = Inr (OutSummary [])
   \<and> report (project_env ''1.4.1'' (\<lambda>m. Inr [])) new_command (Some ''text'')
        [mk_finding ''FN001'' ''./package.json'' ''cmd'' ''npm i a'',
         mk_finding ''FN002'' ''./config/config.json'' ''json'' ''{}'']
      = Inr (OutSummary [(''FN001'', ''npm i a''), (''FN002'', ''{}'')])"
  using summary_output[of None "project_env ''1.4.1'' (\<lambda>m. Inr [])" new_command "[]"]
    summary_output[of "Some ''text''" "project_env ''1.4.1'' (\<lambda>m. Inr [])" new_command
      "[mk_finding ''FN001'' ''./package.json'' ''cmd'' ''npm i a'',
        mk_finding ''FN002'' ''./config/config.json'' ''json'' ''{}'']"]
  by (simp add: mk_finding_def)

section \<open>The calls an invocation makes\<close>

text \<open>
  The calls that only look at the file system, the calls that leave it as it is, and
  the calls made while the rules of the versions are loaded and run.
\<close>

fun is_fs_read :: "effect \<Rightarrow> bool" where
  "is_fs_read (ExistsSync p) = True"
| "is_fs_read (ReadFileSync p) = True"
| "is_fs_read (GetAllFiles p) = True"
| "is_fs_read e = False"

fun fs_readonly :: "effect \<Rightarrow> bool" where
  "fs_readonly (FsWrite p) = False"
| "fs_readonly e = True"

fun is_rule_effect :: "effect \<Rightarrow> bool" where
  "is_rule_effect (Require m) = True"
| "is_rule_effect (Cb (Some (RuleFailure e))) = True"
| "is_rule_effect e = False"

lemma reports_append [simp]: "reports (s @ t) = reports s @ reports t"
  by (simp add: reports_def)

lemma callbacks_append [simp]: "callbacks (s @ t) = callbacks s @ callbacks t"
  by (simp add: callbacks_def)

lemma reports_simps [simp]:
  "reports [] = []"
  "reports (Cb r # t) = reports t"
  "reports (Require m # t) = reports t"
  "reports (Log l # t) = (if is_report l then l # reports t else reports t)"
  by (simp_all add: reports_def)

lemma callbacks_simps [simp]:
  "callbacks [] = []"
  "callbacks (Cb r # t) = r # callbacks t"
  "callbacks (Require m # t) = callbacks t"
  "callbacks (Log l # t) = callbacks t"
  by (simp_all add: callbacks_def)

lemma fs_read_quiet:
  "list_all is_fs_read t \<Longrightarrow> reports t = [] \<and> callbacks t = [] \<and> list_all fs_readonly t"
proof (induction t)
  case (Cons e t)
  then show ?case by (cases e) (simp_all add: reports_def callbacks_def)
qed simp

lemma getProjectRoot_effects: "list_all is_fs_read (snd (getProjectRoot env folderPath))"
proof (induction env folderPath rule: getProjectRoot.induct)
  case (1 env folderPath)
  show ?case
  proof (cases "existsSync env (resolve2 env folderPath ''package.json'')")
    case True
    then show ?thesis by (subst getProjectRoot.simps) simp
  next
    case False
    show ?thesis
    proof (cases "resolve2 env folderPath ''../'' = folderPath")
      case True
      with False show ?thesis by (subst getProjectRoot.simps) simp
    next
      case ne: False
      have "list_all is_fs_read (snd (getProjectRoot env (resolve2 env folderPath ''../'')))"
        using "1.IH"[OF refl False refl ne] .
      with False ne show ?thesis
        by (subst getProjectRoot.simps) (simp add: Let_def case_prod_beta)
    qed
  qed
qed

lemma getProjectVersion_effects: "list_all is_fs_read (snd (getProjectVersion env r))"
  by (simp add: getProjectVersion_def Let_def split: option.splits)

lemma readDoc_effects: "list_all is_fs_read (snd (readDoc env p))"
  by (simp add: readDoc_def)

lemma readManifests_effects: "list_all is_fs_read (snd (readManifests env files))"
  by (induction files) (simp_all add: case_prod_beta split: option.splits)

lemma getProject_effects: "list_all is_fs_read (snd (getProject env r))"
  by (simp add: getProject_def Let_def case_prod_beta readDoc_effects readManifests_effects
           split: sum.splits)

lemma upgrade_versions_effects:
  "upgrade_versions env p vs acc = (a, t) \<Longrightarrow> list_all is_rule_effect t"
proof (induction vs arbitrary: acc a t)
  case Nil
  then show ?case by simp
next
  case (Cons v vs)
  from Cons.prems show ?case
    by (auto simp: Let_def split: prod.splits sum.splits option.splits dest: Cons.IH)
qed

lemma rule_effects_quiet:
  "list_all is_rule_effect t \<Longrightarrow> reports t = [] \<and> list_all fs_readonly t"
proof (induction t)
  case (Cons e t)
  then show ?case by (cases e) (simp_all add: reports_def)
qed simp

lemma indexOf_supported_neg: "indexOf supportedVersions v < 0 \<longleftrightarrow> v \<notin> set supportedVersions"
  by (simp add: indexOf_supported set_supported)

lemma effects_after [simp]: "effects (after t out) = t @ effects out"
  and thrown_after [simp]: "thrown (after t out) = thrown out"
  and final_after [simp]: "final (after t out) = final out"
  by (simp_all add: after_def)

lemma fs_read_only: "list_all is_fs_read t \<Longrightarrow> list_all fs_readonly t"
  by (simp add: fs_read_quiet)

lemma rule_effects_read_only: "list_all is_rule_effect t \<Longrightarrow> list_all fs_readonly t"
  by (simp add: rule_effects_quiet)

lemma upgrade_project_read_only:
  "list_all fs_readonly (effects (upgrade_project env this3 args rootPath pos))"
proof (cases "getProject env rootPath")
  case (Pair res t2)
  have t2: "list_all fs_readonly t2"
    using getProject_effects[of env rootPath] Pair by (simp add: fs_read_only)
  show ?thesis
  proof (cases res)
    case (Inl e)
    with Pair t2 show ?thesis by (simp add: upgrade_project_def Let_def)
  next
    case (Inr p)
    obtain all t3 where u: "upgrade_versions env p (versionsToUpgradeTo supportedVersions pos)
                              (allFindings this3) = (all, t3)"
      by (cases "upgrade_versions env p (versionsToUpgradeTo supportedVersions pos) (allFindings this3)")
    have t3: "list_all fs_readonly t3"
      using upgrade_versions_effects[OF u] by (rule rule_effects_read_only)
    show ?thesis
      using Pair Inr u t2 t3 by (simp add: upgrade_project_def Let_def split: sum.splits)
  qed
qed

lemma check_project_version_read_only:
  "list_all fs_readonly (effects (check_project_version env this2 args rootPath))"
proof (cases "getProjectVersion env rootPath")
  case (Pair version t1)
  have t1: "list_all fs_readonly t1"
    using getProjectVersion_effects[of env rootPath] Pair by (simp add: fs_read_only)
  show ?thesis
    using Pair t1
    by (simp add: check_project_version_def Let_def upgrade_project_read_only split: option.splits)
qed


text \<open>
  C6: whatever the environment, the command object and the options, no call of an
  invocation creates, changes or removes a file: the calls are existence checks and
  reads (of files, of the folder \<open>src\<close>, of the rule modules), and what is produced
  goes to \<open>cmd.log\<close> and to the callback.
\<close>

theorem effects_read_only: "list_all fs_readonly (effects (commandAction env this args))"
proof (cases "getProjectRoot env (cwd env)")
  case (Pair rootOpt t0)
  have t0: "list_all fs_readonly t0"
    using getProjectRoot_effects[of env "cwd env"] Pair by (simp add: fs_read_only)
  show ?thesis
    using Pair t0
    by (simp add: commandAction_def Let_def check_project_version_read_only split: option.splits)
qed


section \<open>The errors of the planning\<close>

text \<open>The example project, as the command finds it.\<close>

lemma ex_root:
  "getProjectRoot (project_env v m) (cwd (project_env v m))
   = (Some ''/home/user/project'',
      [ExistsSync ''/home/user/project/src/package.json'', ExistsSync ''/home/user/project/package.json''])"
  by (simp add: getProjectRoot.simps[of _ "''/home/user/project/src''"] getProjectRoot.simps[of _ "''/home/user/project''"]
        resolve2_def project_env_def mk_env_def normalizeString_def norm_segments_def norm_step_def Let_def)

lemma ex_version:
  "getProjectVersion (project_env v m) ''/home/user/project''
   = (if v = [] then None else Some (JStr v),
      [ExistsSync ''/home/user/project/.yo-rc.json'', ReadFileSync ''/home/user/project/.yo-rc.json'']
      @ (if v = [] then [ReadFileSync ''/home/user/project/package.json''] else []))"
  by (simp add: getProjectVersion_def resolve2_def project_env_def mk_env_def normalizeString_def
        norm_segments_def norm_step_def Let_def yoRc_def yoRc_version_def coreLib_version_def)


text \<open>
  C4: with the project root found and a version of the project detected, the
  command reports, in this order of precedence: the unsupported target when the
  requested version is not a supported one; the unsupported version of the project
  when it is not a supported one; the downgrade when the version of the project comes
  after the target; and that nothing is to be done when both are at the same
  position. In each case the callback gets that one error and no report is logged.
\<close>

theorem planning_errors:
  assumes root: "getProjectRoot env (cwd env) = (Some rootPath, t0)"
    and version: "getProjectVersion env rootPath = (Some (JStr current), t1)"
    and nonempty: "current \<noteq> []"
  shows
    "(let target = requested_toVersion args; out = commandAction env this args
      in (target \<notin> set supportedVersions \<longrightarrow>
            callbacks (effects out) = [Some (UnsupportedTarget target supportedVersions)]
            \<and> reports (effects out) = [] \<and> thrown out = None)
       \<and> (target \<in> set supportedVersions \<and> current \<notin> set supportedVersions \<longrightarrow>
            callbacks (effects out) = [Some (UnsupportedCurrent (JStr current))]
            \<and> reports (effects out) = [] \<and> thrown out = None)
       \<and> (target \<in> set supportedVersions \<and> current \<in> set supportedVersions
            \<and> indexOf supportedVersions current > indexOf supportedVersions target \<longrightarrow>
            callbacks (effects out) = [Some Downgrade]
            \<and> reports (effects out) = [] \<and> thrown out = None)
       \<and> (target \<in> set supportedVersions \<and> current \<in> set supportedVersions
            \<and> indexOf supportedVersions current = indexOf supportedVersions target \<longrightarrow>
            callbacks (effects out) = [Some UpToDate]
            \<and> reports (effects out) = [] \<and> thrown out = None))"
proof -
  have q0: "reports t0 = []" "callbacks t0 = []"
    using getProjectRoot_effects[of env "cwd env"] root fs_read_quiet[of t0] by simp_all
  have q1: "reports t1 = []" "callbacks t1 = []"
    using getProjectVersion_effects[of env rootPath] version fs_read_quiet[of t1] by simp_all
  show ?thesis
    using root version nonempty q0 q1
    by (simp add: commandAction_def check_project_version_def Let_def version_pos_def
                  indexOf_supported_neg)
qed


theorem planning_errors_witness:
  "callbacks (effects (commandAction (project_env ''1.4.1'' (\<lambda>m. Inr [])) new_command
       \<lparr> opt_toVersion = Some ''1.6.0'', opt_output = None \<rparr>))
     = [Some (UnsupportedTarget ''1.6.0'' [''1.4.1'', ''1.5.0''])]
   \<and> callbacks (effects (commandAction (project_env ''1.3.0'' (\<lambda>m. Inr [])) new_command
       \<lparr> opt_toVersion = None, opt_output = None \<rparr>))
     = [Some (UnsupportedCurrent (JStr ''1.3.0''))]
   \<and> callbacks (effects (commandAction (project_env ''1.5.0'' (\<lambda>m. Inr [])) new_command
       \<lparr> opt_toVersion = Some ''1.4.1'', opt_output = None \<rparr>))
     = [Some Downgrade]
   \<and> callbacks (effects (commandAction (project_env ''1.5.0'' (\<lambda>m. Inr [])) new_command
       \<lparr> opt_toVersion = None, opt_output = None \<rparr>))
     = [Some UpToDate]
   \<and> reports (effects (commandAction (project_env ''1.5.0'' (\<lambda>m. Inr [])) new_command
       \<lparr> opt_toVersion = None, opt_output = None \<rparr>))
     = []"
  using planning_errors[OF ex_root, of "''1.4.1''" "\<lambda>m. Inr []" "''1.4.1''" _
          "\<lparr> opt_toVersion = Some ''1.6.0'', opt_output = None \<rparr>" new_command]
        planning_errors[OF ex_root, of "''1.3.0''" "\<lambda>m. Inr []" "''1.3.0''" _
          "\<lparr> opt_toVersion = None, opt_output = None \<rparr>" new_command]
        planning_errors[OF ex_root, of "''1.5.0''" "\<lambda>m. Inr []" "''1.5.0''" _
          "\<lparr> opt_toVersion = Some ''1.4.1'', opt_output = None \<rparr>" new_command]
        planning_errors[OF ex_root, of "''1.5.0''" "\<lambda>m. Inr []" "''1.5.0''" _
          "\<lparr> opt_toVersion = None, opt_output = None \<rparr>" new_command]
  by (simp add: ex_version Let_def requested_toVersion_def set_supported indexOf_supported)
     (simp add: supportedVersions_def)

section \<open>Documents that are missing or do not parse\<close>

text \<open>
  The ten documents of a project with the slot each one fills, and what makes a file
  unusable once it is there: the read throws or the parser does.
\<close>

definition documents :: "(string \<times> (project \<Rightarrow> json option)) list" where
  "documents =
     [(''config/config.json'', configJson),
      (''config/copy-assets.json'', copyAssetsJson),
      (''config/deploy-azure-storage.json'', deployAzureStorageJson),
      (''package.json'', packageJson),
      (''config/package-solution.json'', packageSolutionJson),
      (''config/serve.json'', serveJson),
      (''tsconfig.json'', tsConfigJson),
      (''config/tslint.json'', tsLintJson),
      (''config/write-manifests.json'', writeManifestsJson),
      (''.yo-rc.json'', yoRcJson)]"

definition unparsable :: "env \<Rightarrow> string \<Rightarrow> bool" where
  "unparsable env p =
     (case readFileSync env p of
        None \<Rightarrow> True
      | Some s \<Rightarrow> JSON_parse env (removeSingleLineComments env s) = None)"

lemma readDoc_unusable:
  "\<not> existsSync env p \<or> unparsable env p \<Longrightarrow> fst (readDoc env p) = None"
  by (auto simp: readDoc_def unparsable_def split: option.splits)

lemma readManifests_unparsable:
  "unparsable env f \<Longrightarrow> f \<notin> manifest_path ` set (fst (readManifests env files))"
proof (induction files)
  case Nil
  then show ?case by simp
next
  case (Cons g files)
  have a: "\<And>m m'. attach_path m g = Some m' \<Longrightarrow> manifest_path m' = g"
    by (case_tac m) auto
  from Cons show ?case
    by (auto simp: case_prod_beta unparsable_def split: option.splits dest: a)
qed


text \<open>
  C5: provided the walk over \<open>src\<close> returns, \<open>getProject\<close> returns a project and
  no error, whatever the files hold: the slot of each of the ten documents is unset
  when the file is missing or cannot be read and parsed, and a manifest file that
  cannot be read and parsed is not among the manifests.
\<close>

theorem getProject_tolerant:
  assumes "getAllFiles env (path_join [rootPath, ''src'']) = Inr files"
  shows "\<exists>p t. getProject env rootPath = (Inr p, t)
           \<and> (\<forall>(rel, slot)\<in>set documents.
                 \<not> existsSync env (path_join [rootPath, rel])
                 \<or> unparsable env (path_join [rootPath, rel]) \<longrightarrow> slot p = None)
           \<and> (\<forall>f\<in>set files. unparsable env f \<longrightarrow> f \<notin> manifest_path ` set (manifests p))"
  using assms
  by (simp add: getProject_def Let_def case_prod_beta documents_def readDoc_unusable
                readManifests_unparsable)

lemma ex_join:
  "path_join [''/home/user/project'', ''tsconfig.json''] = ''/home/user/project/tsconfig.json''"
  "path_join [''/home/user/project'', ''config/config.json''] = ''/home/user/project/config/config.json''"
  by (simp_all add: path_join_def path_normalize_def normalizeString_def norm_segments_def
        norm_step_def Let_def)

theorem getProject_tolerant_witness:
  "\<exists>p t. getProject (project_env ''1.4.1'' (\<lambda>m. Inr [])) ''/home/user/project'' = (Inr p, t)
     \<and> tsConfigJson p = None \<and> configJson p = None
     \<and> ''/home/user/project/src/b.manifest.json'' \<notin> manifest_path ` set (manifests p)"
proof -
  let ?env = "project_env ''1.4.1'' (\<lambda>m. Inr [])"
  let ?files = "[''/home/user/project/src/a.manifest.json'',
                 ''/home/user/project/src/b.manifest.json'', ''/home/user/project/src/index.ts'']"
  have walk: "getAllFiles ?env (path_join [''/home/user/project'', ''src'']) = Inr ?files"
    by (simp add: project_env_def mk_env_def)
  have ts: "unparsable ?env (path_join [''/home/user/project'', ''tsconfig.json''])"
    by (simp add: ex_join unparsable_def project_env_def mk_env_def)
  have cfg: "\<not> existsSync ?env (path_join [''/home/user/project'', ''config/config.json''])"
    by (simp add: ex_join project_env_def mk_env_def)
  have b: "unparsable ?env ''/home/user/project/src/b.manifest.json''"
    by (simp add: unparsable_def project_env_def mk_env_def)
  from getProject_tolerant[OF walk] ts cfg b show ?thesis
    by (simp add: documents_def) blast
qed

section \<open>A version whose rules cannot be loaded\<close>

text \<open>
  The loop over the versions goes on after a failure: with two versions to upgrade
  to, the rules of the second are loaded and run after the callback got the error
  of the first.
\<close>

lemma upgrade_versions_continues:
  assumes "require env (''./project-upgrade/upgrade-'' @ v1) = Inl e"
    and "require env (''./project-upgrade/upgrade-'' @ v2) = Inr rules"
    and "visit_rules p rules acc = (acc', None)"
  shows "upgrade_versions env p [v1, v2] acc
         = (acc', [Require (''./project-upgrade/upgrade-'' @ v1), Cb (Some (RuleFailure e)),
                   Require (''./project-upgrade/upgrade-'' @ v2)])"
  using assms by (simp add: Let_def)


text \<open>
  With one version to upgrade to, as the two supported versions allow: after the
  callback got the error, the report is logged and the callback is called again,
  without an error.
\<close>

lemma catalog_failure:
  assumes root: "getProjectRoot env (cwd env) = (Some rootPath, t0)"
    and version: "getProjectVersion env rootPath = (Some (JStr ''1.4.1''), t1)"
    and target: "requested_toVersion args = ''1.5.0''"
    and proj: "getProject env rootPath = (Inr p, t2)"
    and load: "require env ''./project-upgrade/upgrade-1.5.0'' = Inl e"
    and out: "opt_output args = None"
  shows "callbacks (effects (commandAction env this args)) = [Some (RuleFailure e), None]
         \<and> reports (effects (commandAction env this args))
             = [OutSummary (map (\<lambda>f. (fid f, resolution f)) (dedupe (allFindings this)))]"
proof -
  have q0: "reports t0 = []" "callbacks t0 = []"
    using getProjectRoot_effects[of env "cwd env"] root fs_read_quiet[of t0] by simp_all
  have q1: "reports t1 = []" "callbacks t1 = []"
    using getProjectVersion_effects[of env rootPath] version fs_read_quiet[of t1] by simp_all
  have q2: "reports t2 = []" "callbacks t2 = []"
    using getProject_effects[of env rootPath] proj fs_read_quiet[of t2] by simp_all
  have vs: "versionsToUpgradeTo supportedVersions 0 = [''1.5.0'']"
    by (simp add: versionsToUpgradeTo_drop) (simp add: supportedVersions_def)
  have up: "upgrade_project env this3 args rootPath 0
            = \<lparr> effects = (if verbose this3 then [Log (OutText ''Collecting project...'')] else [])
                  @ t2 @ (if debug this3 then [Log (OutText ''Collected project''), Log (OutProject p)] else [])
                  @ [Require ''./project-upgrade/upgrade-1.5.0'', Cb (Some (RuleFailure e)),
                     Log (OutSummary (map (\<lambda>f. (fid f, resolution f)) (dedupe (allFindings this3)))),
                     Cb None],
                thrown = None, final = this3\<lparr> allFindings := allFindings this3 \<rparr> \<rparr>" for this3
    using proj load out by (simp add: upgrade_project_def vs Let_def report_def)
  show ?thesis
    using root version target q0 q1 q2
    by (simp add: commandAction_def check_project_version_def Let_def version_pos_def
                  indexOf_supported up)
qed


text \<open>
  C3 (the code departs from the claim): for a project at 1.4.1 to be upgraded to
  1.5.0 whose rule module fails to load, the callback gets the error, and then the
  report (the summary, empty here) is logged all the same and the callback is called
  a second time, as for a success.
\<close>

theorem catalog_failure_still_reports:
  "callbacks (effects (commandAction (project_env ''1.4.1'' (\<lambda>m. Inl ''Cannot find module''))
       new_command \<lparr> opt_toVersion = None, opt_output = None \<rparr>))
     = [Some (RuleFailure ''Cannot find module''), None]
   \<and> reports (effects (commandAction (project_env ''1.4.1'' (\<lambda>m. Inl ''Cannot find module''))
       new_command \<lparr> opt_toVersion = None, opt_output = None \<rparr>))
     = [OutSummary []]"
proof -
  let ?env = "project_env ''1.4.1'' (\<lambda>m. Inl ''Cannot find module'')"
  have walk: "getAllFiles ?env (path_join [''/home/user/project'', ''src'']) = Inr
      [''/home/user/project/src/a.manifest.json'', ''/home/user/project/src/b.manifest.json'',
       ''/home/user/project/src/index.ts'']"
    by (simp add: project_env_def mk_env_def)
  obtain p t2 where proj: "getProject ?env ''/home/user/project'' = (Inr p, t2)"
    using getProject_tolerant[OF walk] by blast
  have load: "require ?env ''./project-upgrade/upgrade-1.5.0'' = Inl ''Cannot find module''"
    by (simp add: project_env_def mk_env_def)
  have target: "requested_toVersion \<lparr> opt_toVersion = None, opt_output = None \<rparr> = ''1.5.0''"
    by (simp add: requested_toVersion_def supportedVersions_def)
  have version: "getProjectVersion ?env ''/home/user/project'' = (Some (JStr ''1.4.1''),
      [ExistsSync ''/home/user/project/.yo-rc.json'', ReadFileSync ''/home/user/project/.yo-rc.json''])"
    by (simp add: ex_version)
  have "dedupe (allFindings new_command) = []"
    by (simp add: new_command_def dedupe_def filter_indexed_def)
  with catalog_failure[OF ex_root version target proj load, of new_command] show ?thesis
    by simp
qed


section \<open>The project root\<close>

text \<open>
  The folders where the search may look, nearest first: the starting folder as it is
  written, then its parent, the parent of that, and so on up to the root \<open>/\<close>.
\<close>

definition has_package_json :: "env \<Rightarrow> string \<Rightarrow> bool" where
  "has_package_json env d = existsSync env (resolve2 env d ''package.json'')"

definition chain :: "string list \<Rightarrow> string list" where
  "chain segs = map (\<lambda>k. render (take k segs)) (rev [0..<Suc (length segs)])"

definition ancestors :: "env \<Rightarrow> string \<Rightarrow> string list" where
  "ancestors env folderPath =
     folderPath # (if folderPath = ''/'' then [] else chain (butlast (folder_segments env folderPath)))"

lemma chain_Nil: "chain [] = [''/'']"
  by (simp add: chain_def render_def)

lemma chain_snoc: "chain (ys @ [x]) = render (ys @ [x]) # chain ys"
  by (simp add: chain_def)

lemma render_inj:
  assumes "\<forall>s\<in>set xs. clean_segment s" "\<forall>s\<in>set ys. clean_segment s" "render xs = render ys"
  shows "xs = ys"
proof -
  have "xs = norm_segments False (render xs)"
    using assms(1) by (simp add: norm_segments_render)
  also have "\<dots> = norm_segments False (render ys)"
    using assms(3) by simp
  also have "\<dots> = ys"
    using assms(2) by (simp add: norm_segments_render)
  finally show ?thesis .
qed

lemma getProjectRoot_step:
  "fst (getProjectRoot env f) =
     (if has_package_json env f then Some f
      else if resolve2 env f ''../'' \<noteq> f then fst (getProjectRoot env (resolve2 env f ''../''))
      else None)"
  by (subst getProjectRoot.simps) (simp add: Let_def case_prod_beta has_package_json_def)

lemma getProjectRoot_render:
  "\<forall>s\<in>set segs. clean_segment s \<Longrightarrow>
   fst (getProjectRoot env (render segs)) = find (has_package_json env) (chain segs)"
proof (induction segs rule: rev_induct)
  case Nil
  have "resolve2 env (render []) ''../'' = render []"
    by (simp add: resolve2_parent folder_segments_render)
  then show ?case
    by (subst getProjectRoot_step) (simp add: chain_Nil render_def)
next
  case (snoc x ys)
  have p: "resolve2 env (render (ys @ [x])) ''../'' = render ys"
    using snoc.prems by (simp add: resolve2_parent folder_segments_render)
  have ne: "render ys \<noteq> render (ys @ [x])"
    using render_inj[of ys "ys @ [x]"] snoc.prems by auto
  have ih: "fst (getProjectRoot env (render ys)) = find (has_package_json env) (chain ys)"
    using snoc by simp
  show ?case
    by (subst getProjectRoot_step) (simp add: p ne ih chain_snoc)
qed

lemma parent_fixed: "resolve2 env f ''../'' = f \<longleftrightarrow> f = ''/''"
proof
  assume a: "resolve2 env f ''../'' = f"
  have c: "\<forall>s\<in>set (butlast (folder_segments env f)). clean_segment s"
    using norm_segments_clean[of "base_path env f"]
    by (auto simp: folder_segments_def dest: in_set_butlastD)
  have "folder_segments env f = butlast (folder_segments env f)"
    using folder_segments_parent[of env f] a by simp
  then have "folder_segments env f = []"
    by (cases "folder_segments env f" rule: rev_cases) auto
  with a show "f = ''/''" by (simp add: resolve2_parent render_def)
next
  assume "f = ''/''"
  then show "resolve2 env f ''../'' = f"
    by (simp add: resolve2_def normalizeString_def norm_segments_def norm_step_def)
qed

lemma ex_ancestors:
  "ancestors (project_env v m) ''/home/user/project/src''
   = [''/home/user/project/src'', ''/home/user/project'', ''/home/user'', ''/home'', ''/'']"
  by (simp add: ancestors_def chain_def render_def folder_segments_def base_path_def
        norm_segments_def norm_step_def upt_rec)


text \<open>
  C10: \<open>getProjectRoot\<close> is a total function (its termination is proved above:
  each call is on a shorter path, or on the root once), and for every starting folder
  it returns the first of the folders above (the starting folder, then its ancestors
  up to the root) that holds a \<open>package.json\<close>, and \<open>null\<close> when none does.
\<close>

theorem getProjectRoot_nearest:
  "fst (getProjectRoot env folderPath) = find (has_package_json env) (ancestors env folderPath)"
proof (cases "has_package_json env folderPath")
  case True
  then show ?thesis
    by (subst getProjectRoot_step) (simp add: ancestors_def)
next
  case False
  show ?thesis
  proof (cases "folderPath = ''/''")
    case True
    then have "resolve2 env folderPath ''../'' = folderPath"
      by (simp add: parent_fixed)
    with False True show ?thesis
      by (subst getProjectRoot_step) (simp add: ancestors_def)
  next
    case ne: False
    have c: "\<forall>s\<in>set (butlast (folder_segments env folderPath)). clean_segment s"
      using norm_segments_clean[of "base_path env folderPath"]
      by (auto simp: folder_segments_def dest: in_set_butlastD)
    have p: "resolve2 env folderPath ''../'' \<noteq> folderPath"
      using ne by (simp add: parent_fixed)
    have "fst (getProjectRoot env folderPath)
          = fst (getProjectRoot env (resolve2 env folderPath ''../''))"
      using False p by (subst getProjectRoot_step) simp
    also have "\<dots> = find (has_package_json env) (chain (butlast (folder_segments env folderPath)))"
      by (simp add: resolve2_parent getProjectRoot_render[OF c])
    finally show ?thesis
      using False ne by (simp add: ancestors_def)
  qed
qed

section \<open>The files of the Markdown summary\<close>

text \<open>
  What the claims about the summary speak of, written from the findings alone: the
  findings that are not commands, the files they name in the order of their first
  appearance, the resolutions for a file in the order of the findings, and the first
  type met for a file that is not the empty string.
\<close>

definition edits :: "finding list \<Rightarrow> finding list" where
  "edits fs = filter (\<lambda>f. resolutionType f \<noteq> ''cmd'') fs"

fun firsts :: "'a list \<Rightarrow> 'a list" where
  "firsts [] = []"
| "firsts (x # xs) = x # filter (\<lambda>y. y \<noteq> x) (firsts xs)"

definition edit_files :: "finding list \<Rightarrow> string list" where
  "edit_files fs = firsts (map ffile (edits fs))"

definition file_resolutions :: "finding list \<Rightarrow> string \<Rightarrow> string list" where
  "file_resolutions fs k = map resolution (filter (\<lambda>f. ffile f = k) (edits fs))"

definition first_type :: "finding list \<Rightarrow> string \<Rightarrow> string" where
  "first_type fs k =
     (case filter (\<lambda>f. ffile f = k \<and> resolutionType f \<noteq> []) (edits fs) of
        [] \<Rightarrow> []
      | f # rest \<Rightarrow> resolutionType f)"

text \<open>What the summary shows: the files in their order, and each file with its tag.\<close>

definition summary_files :: "env \<Rightarrow> finding list \<Rightarrow> string list option" where
  "summary_files env fs =
     (case md_forEach env md_init fs of
        Inl e \<Rightarrow> None
      | Inr st \<Rightarrow> Some (object_keys (modificationPerFile st)))"

definition summary_tags :: "env \<Rightarrow> finding list \<Rightarrow> (string \<times> string) list option" where
  "summary_tags env fs =
     (case md_forEach env md_init fs of
        Inl e \<Rightarrow> None
      | Inr st \<Rightarrow> Some (map (\<lambda>k. (k, file_type st k)) (object_keys (modificationPerFile st))))"


text \<open>The state \<open>getMdReport\<close> has built when its loop over the findings ends.\<close>

definition md_result :: "finding list \<Rightarrow> md_state" where
  "md_result fs =
     \<lparr> commandsToExecute = map resolution (filter (\<lambda>f. resolutionType f = ''cmd'') fs),
       findingsToReport = concat (map finding_block fs),
       modificationPerFile = map (\<lambda>k. (k, file_resolutions fs k)) (edit_files fs),
       modificationTypePerFile = map (\<lambda>k. (k, first_type fs k)) (edit_files fs) \<rparr>"


lemma set_firsts [simp]: "set (firsts xs) = set xs"
  by (induction xs) auto

lemma distinct_firsts [simp]: "distinct (firsts xs)"
  by (induction xs) auto

lemma firsts_snoc: "firsts (xs @ [x]) = (if x \<in> set xs then firsts xs else firsts xs @ [x])"
  by (induction xs) auto

lemma md_forEach_snoc:
  "md_forEach env st (xs @ [x]) =
     (case md_forEach env st xs of Inl e \<Rightarrow> Inl e | Inr st' \<Rightarrow> md_step env st' x)"
  by (induction xs arbitrary: st) (auto split: sum.splits)

lemma map_of_keys:
  "map_of (map (\<lambda>k. (k, g k)) ks) k = (if k \<in> set ks then Some (g k) else None)"
  by (induction ks) auto

lemma dict_get_keys:
  "dict_get (map (\<lambda>k. (k, g k)) ks) k = (if k \<in> set ks then Some (g k) else None)"
  by (simp add: dict_get_def map_of_keys)

lemma dict_set_new:
  "k \<notin> set ks \<Longrightarrow> dict_set (map (\<lambda>k. (k, g k)) ks) k v = map (\<lambda>k. (k, g k)) ks @ [(k, v)]"
  by (simp add: dict_set_def map_of_keys)

lemma dict_set_old:
  "k \<in> set ks \<Longrightarrow>
   dict_set (map (\<lambda>k. (k, g k)) ks) k v = map (\<lambda>k'. (k', if k' = k then v else g k')) ks"
  by (simp add: dict_set_def map_of_keys comp_def)

lemma dict_set_last:
  assumes "k \<notin> fst ` set d"
  shows "dict_set (d @ [(k, v0)]) k v = d @ [(k, v)]"
proof -
  have "map_of d k = None"
    using assms by (simp add: map_of_eq_None_iff)
  then have "map_of (d @ [(k, v0)]) k = Some v0"
    by (simp add: map_add_def)
  moreover have "map (\<lambda>(k', v'). if k' = k then (k', v) else (k', v')) d = d"
    using assms by (intro map_idI) (auto simp: image_iff)
  ultimately show ?thesis by (simp add: dict_set_def)
qed

lemma dict_get_last:
  assumes "k \<notin> fst ` set d"
  shows "dict_get (d @ [(k, v0)]) k = Some v0"
proof -
  have "map_of d k = None"
    using assms by (simp add: map_of_eq_None_iff)
  then show ?thesis
    by (simp add: dict_get_def map_add_def)
qed

lemma edits_snoc:
  "edits (xs @ [x]) = (if resolutionType x = ''cmd'' then edits xs else edits xs @ [x])"
  by (simp add: edits_def)

lemma edit_files_set: "set (edit_files fs) = ffile ` set (edits fs)"
  by (simp add: edit_files_def)

lemma first_type_Nil_iff:
  "first_type fs k = [] \<longleftrightarrow> filter (\<lambda>f. ffile f = k \<and> resolutionType f \<noteq> []) (edits fs) = []"
proof (cases "filter (\<lambda>f. ffile f = k \<and> resolutionType f \<noteq> []) (edits fs)")
  case Nil
  then show ?thesis by (simp add: first_type_def)
next
  case (Cons f rest)
  then have "f \<in> set (filter (\<lambda>f. ffile f = k \<and> resolutionType f \<noteq> []) (edits fs))" by simp
  then have "resolutionType f \<noteq> []" by simp
  with Cons show ?thesis by (simp add: first_type_def)
qed

lemma first_type_snoc:
  "resolutionType x \<noteq> ''cmd'' \<Longrightarrow>
   first_type (xs @ [x]) k =
     (if ffile x = k \<and> first_type xs k = [] then resolutionType x else first_type xs k)"
proof -
  assume nc: "resolutionType x \<noteq> ''cmd''"
  let ?P = "\<lambda>f. ffile f = k \<and> resolutionType f \<noteq> []"
  show ?thesis
  proof (cases "filter ?P (edits xs)")
    case Nil
    then have "first_type xs k = []" by (simp add: first_type_def)
    with Nil nc show ?thesis by (auto simp: first_type_def edits_snoc)
  next
    case (Cons f rest)
    then have "first_type xs k \<noteq> []" using first_type_Nil_iff[of xs k] by simp
    with Cons nc show ?thesis by (auto simp: first_type_def edits_snoc)
  qed
qed

lemma md_step_result:
  assumes "resolutionType x \<noteq> ''cmd'' \<longrightarrow> \<not> array_builtin env (ffile x)"
  shows "md_step env (md_result xs) x = Inr (md_result (xs @ [x]))"
proof (cases "resolutionType x = ''cmd''")
  case True
  then show ?thesis
    by (simp add: md_step_def md_result_def edit_files_def file_resolutions_def first_type_def
                  edits_snoc)
next
  case False
  let ?k = "ffile x"
  have nb: "\<not> array_builtin env ?k" using assms False by simp
  show ?thesis
  proof (cases "?k \<in> set (edit_files xs)")
    case new: False
    then have none: "filter (\<lambda>f. ffile f = ?k) (edits xs) = []"
      unfolding edit_files_set filter_empty_conv by (metis imageI)
    have ef: "edit_files (xs @ [x]) = edit_files xs @ [?k]"
      using False new by (simp add: edit_files_def edits_snoc firsts_snoc)
    have r: "map (\<lambda>k. (k, file_resolutions (xs @ [x]) k)) (edit_files xs)
             = map (\<lambda>k. (k, file_resolutions xs k)) (edit_files xs)"
      using False new by (auto simp: file_resolutions_def edits_snoc)
    have t: "map (\<lambda>k. (k, first_type (xs @ [x]) k)) (edit_files xs)
             = map (\<lambda>k. (k, first_type xs k)) (edit_files xs)"
      using False new by (auto simp: first_type_snoc)
    have rk: "file_resolutions (xs @ [x]) ?k = [resolution x]"
      using False none by (simp add: file_resolutions_def edits_snoc)
    have tk: "first_type (xs @ [x]) ?k = resolutionType x"
      using False none by (auto simp: first_type_def edits_snoc filter_empty_conv)
    have "dict_set (map (\<lambda>k. (k, file_resolutions xs k)) (edit_files xs) @ [(?k, [])]) ?k [resolution x]
          = map (\<lambda>k. (k, file_resolutions xs k)) (edit_files xs) @ [(?k, [resolution x])]"
      using new by (intro dict_set_last) (simp add: image_image)
    moreover have "dict_get (map (\<lambda>k. (k, file_resolutions xs k)) (edit_files xs) @ [(?k, [])]) ?k
                   = Some []"
      using new by (intro dict_get_last) (simp add: image_image)
    ultimately show ?thesis
      using False nb new
      by (simp add: md_step_def md_result_def dict_get_keys dict_set_new Let_def ef r t rk tk)
  next
    case old: True
    have ef: "edit_files (xs @ [x]) = edit_files xs"
      using False old by (auto simp: edit_files_def edits_snoc firsts_snoc)
    have r: "map (\<lambda>k'. (k', if k' = ?k then file_resolutions xs ?k @ [resolution x]
                                 else file_resolutions xs k')) (edit_files xs)
             = map (\<lambda>k. (k, file_resolutions (xs @ [x]) k)) (edit_files xs)"
      using False by (auto simp: file_resolutions_def edits_snoc)
    have t1: "first_type xs ?k = [] \<Longrightarrow>
              map (\<lambda>k'. (k', if k' = ?k then resolutionType x else first_type xs k')) (edit_files xs)
              = map (\<lambda>k. (k, first_type (xs @ [x]) k)) (edit_files xs)"
      using False by (auto simp: first_type_snoc)
    have t2: "first_type xs ?k \<noteq> [] \<Longrightarrow>
              map (\<lambda>k. (k, first_type xs k)) (edit_files xs)
              = map (\<lambda>k. (k, first_type (xs @ [x]) k)) (edit_files xs)"
      using False by (auto simp: first_type_snoc)
    show ?thesis
      using False nb old
      by (simp add: md_step_def md_result_def dict_get_keys dict_set_old Let_def ef r t1 t2)
  qed
qed

lemma md_forEach_result:
  "\<forall>f\<in>set (edits fs). \<not> array_builtin env (ffile f) \<Longrightarrow>
   md_forEach env md_init fs = Inr (md_result fs)"
proof (induction fs rule: rev_induct)
  case Nil
  then show ?case
    by (simp add: md_init_def md_result_def edit_files_def edits_def)
next
  case (snoc x xs)
  have "md_forEach env md_init xs = Inr (md_result xs)"
    using snoc by (simp add: edits_snoc split: if_splits)
  moreover have "md_step env (md_result xs) x = Inr (md_result (xs @ [x]))"
    using snoc.prems by (intro md_step_result) (simp add: edits_snoc split: if_splits)
  ultimately show ?case by (simp add: md_forEach_snoc)
qed

lemma object_keys_plain:
  "\<forall>k\<in>fst ` set d. \<not> is_array_index k \<Longrightarrow> object_keys d = map fst d"
proof -
  assume a: "\<forall>k\<in>fst ` set d. \<not> is_array_index k"
  then have "filter is_array_index (map fst d) = []"
    by (auto simp: filter_empty_conv)
  moreover have "filter (\<lambda>k. \<not> is_array_index k) (map fst d) = map fst d"
    using a by (auto simp: filter_id_conv)
  ultimately show ?thesis by (simp add: object_keys_def)
qed

lemma set_object_keys: "set (object_keys d) = fst ` set d"
  by (auto simp: object_keys_def)

lemma file_modifications_result:
  "k \<in> set (edit_files fs) \<Longrightarrow> file_modifications (md_result fs) k = file_resolutions fs k"
  by (simp add: file_modifications_def md_result_def dict_get_keys)

lemma file_type_result:
  "k \<in> set (edit_files fs) \<Longrightarrow> file_type (md_result fs) k = first_type fs k"
  by (simp add: file_type_def md_result_def dict_get_keys)

lemma keys_result: "map fst (modificationPerFile (md_result fs)) = edit_files fs"
  by (simp add: md_result_def comp_def)

lemma first_type_first:
  assumes "find (\<lambda>f. ffile f = k) (edits fs) = Some g" and "resolutionType g \<noteq> []"
  shows "first_type fs k = resolutionType g"
proof -
  have "\<And>es. find (\<lambda>f. ffile f = k) es = Some g \<Longrightarrow>
        \<exists>rest. filter (\<lambda>f. ffile f = k \<and> resolutionType f \<noteq> []) es = g # rest"
  proof -
    fix es show "find (\<lambda>f. ffile f = k) es = Some g \<Longrightarrow>
        \<exists>rest. filter (\<lambda>f. ffile f = k \<and> resolutionType f \<noteq> []) es = g # rest"
      using assms(2) by (induction es) (auto split: if_splits)
  qed
  from this[OF assms(1)] show ?thesis by (auto simp: first_type_def)
qed

lemma builtin_example:
  "array_builtin (project_env v m) k \<longleftrightarrow> k \<in> set array_builtin_names"
  by (simp add: project_env_def mk_env_def)

lemma not_builtin_example:
  "''./tsconfig.json'' \<notin> set array_builtin_names"
  "''./config/config.json'' \<notin> set array_builtin_names"
  "''1'' \<notin> set array_builtin_names" "''2'' \<notin> set array_builtin_names"
  by (simp_all add: array_builtin_names_def)

lemma not_index_example:
  "\<not> is_array_index ''./tsconfig.json''" "\<not> is_array_index ''./config/config.json''"
  by (simp_all add: is_array_index_def array_index_def digit_def)


text \<open>
  C7, as it holds of the code: when no finding that is not a command names a file
  that is an array index (the decimal writing of an integer below \<open>2^32 - 1\<close>) or a
  name an array already answers to, the loop ends normally, the files of the summary
  are the files of these findings in the order in which each one first appears, and
  the group of a file holds the resolutions for that file in the order of the
  findings.
\<close>

theorem modify_files_order:
  assumes "\<forall>f\<in>set (edits fs). \<not> array_builtin env (ffile f) \<and> \<not> is_array_index (ffile f)"
  shows "\<exists>st. md_forEach env md_init fs = Inr st
           \<and> object_keys (modificationPerFile st) = edit_files fs
           \<and> modify_files st
               = join EOL (map (\<lambda>k. file_group k (file_type st k) (file_resolutions fs k))
                               (edit_files fs))"
proof -
  have st: "md_forEach env md_init fs = Inr (md_result fs)"
    using assms by (intro md_forEach_result) simp
  have "\<forall>k\<in>fst ` set (modificationPerFile (md_result fs)). \<not> is_array_index k"
    using assms keys_result[of fs] edit_files_set[of fs]
    by (metis (no_types, lifting) image_iff set_map)
  then have keys: "object_keys (modificationPerFile (md_result fs)) = edit_files fs"
    by (simp add: object_keys_plain keys_result)
  have m: "map (\<lambda>k. file_group k (file_type (md_result fs) k) (file_modifications (md_result fs) k))
               (edit_files fs)
           = map (\<lambda>k. file_group k (file_type (md_result fs) k) (file_resolutions fs k))
                 (edit_files fs)"
    by (rule map_cong) (simp_all add: file_modifications_result)
  have "modify_files (md_result fs)
        = join EOL (map (\<lambda>k. file_group k (file_type (md_result fs) k) (file_resolutions fs k))
                        (edit_files fs))"
    by (simp only: modify_files_def keys m)
  with st keys show ?thesis by blast
qed

theorem modify_files_order_witness:
  "summary_files (project_env ''1.4.1'' no_rules)
     [mk_finding ''FN001'' ''./tsconfig.json'' ''json'' ''{a}'',
      mk_finding ''FN002'' ''./package.json'' ''cmd'' ''npm i'',
      mk_finding ''FN003'' ''./config/config.json'' ''json'' ''{b}'',
      mk_finding ''FN004'' ''./tsconfig.json'' ''json'' ''{c}'']
   = Some [''./tsconfig.json'', ''./config/config.json'']"
  using modify_files_order[of
     "[mk_finding ''FN001'' ''./tsconfig.json'' ''json'' ''{a}'',
       mk_finding ''FN002'' ''./package.json'' ''cmd'' ''npm i'',
       mk_finding ''FN003'' ''./config/config.json'' ''json'' ''{b}'',
       mk_finding ''FN004'' ''./tsconfig.json'' ''json'' ''{c}'']" "project_env ''1.4.1'' no_rules"]
  by (auto simp: summary_files_def edits_def edit_files_def mk_finding_def builtin_example not_builtin_example
                 not_index_example)


text \<open>
  C7, as the claim states it, fails on file names that are array indices:
  \<open>Object.keys\<close> lists them first and in numeric order, so with a finding for the
  file \<open>2\<close> followed by one for the file \<open>1\<close> the summary shows \<open>1\<close> before \<open>2\<close>.
\<close>

theorem modify_files_order_counterexample:
  "summary_files (project_env ''1.4.1'' no_rules)
     [mk_finding ''FN001'' ''2'' ''json'' ''{a}'', mk_finding ''FN002'' ''1'' ''json'' ''{b}'']
   = Some [''1'', ''2'']
   \<and> edit_files [mk_finding ''FN001'' ''2'' ''json'' ''{a}'', mk_finding ''FN002'' ''1'' ''json'' ''{b}'']
   = [''2'', ''1'']"
proof -
  let ?fs = "[mk_finding ''FN001'' ''2'' ''json'' ''{a}'', mk_finding ''FN002'' ''1'' ''json'' ''{b}'']"
  have e: "edit_files ?fs = [''2'', ''1'']"
    by (simp add: edit_files_def edits_def mk_finding_def)
  have "md_forEach (project_env ''1.4.1'' no_rules) md_init ?fs = Inr (md_result ?fs)"
    by (intro md_forEach_result) (simp add: edits_def mk_finding_def builtin_example not_builtin_example)
  moreover have "index_value ''1'' = 1" "index_value ''2'' = 2"
    "is_array_index ''1''" "is_array_index ''2''"
    by (simp_all add: index_value_def is_array_index_def array_index_def digit_def decimal_value_def)
  ultimately have "summary_files (project_env ''1.4.1'' no_rules) ?fs = Some [''1'', ''2'']"
    by (simp add: summary_files_def md_result_def e object_keys_def)
  with e show ?thesis by simp
qed


text \<open>
  C9, as it holds of the code: when no finding that is not a command names a file
  that an array already answers to, the loop ends normally, the script of commands
  holds the resolutions of the commands only, every other finding is in the group of
  its file, and the blocks of a file are tagged with the type of the first such
  finding for the file provided that type is not the empty string, whatever the
  types of the later ones.
\<close>

theorem modification_tags:
  assumes "\<forall>f\<in>set (edits fs). \<not> array_builtin env (ffile f)"
  shows "\<exists>st. md_forEach env md_init fs = Inr st
           \<and> commandsToExecute st = map resolution (filter (\<lambda>f. resolutionType f = ''cmd'') fs)
           \<and> (\<forall>f\<in>set (edits fs).
                 ffile f \<in> set (object_keys (modificationPerFile st))
                 \<and> resolution f \<in> set (file_modifications st (ffile f)))
           \<and> (\<forall>k g. find (\<lambda>f. ffile f = k) (edits fs) = Some g \<and> resolutionType g \<noteq> []
                 \<longrightarrow> file_type st k = resolutionType g)"
proof -
  have st: "md_forEach env md_init fs = Inr (md_result fs)"
    using assms by (rule md_forEach_result)
  have c: "commandsToExecute (md_result fs)
           = map resolution (filter (\<lambda>f. resolutionType f = ''cmd'') fs)"
    by (simp add: md_result_def)
  have keys: "set (object_keys (modificationPerFile (md_result fs))) = set (edit_files fs)"
    using keys_result[of fs] by (simp add: set_object_keys flip: set_map)
  have g: "\<forall>f\<in>set (edits fs).
             ffile f \<in> set (object_keys (modificationPerFile (md_result fs)))
             \<and> resolution f \<in> set (file_modifications (md_result fs) (ffile f))"
  proof
    fix f assume f: "f \<in> set (edits fs)"
    then have k: "ffile f \<in> set (edit_files fs)" by (simp add: edit_files_set)
    have "resolution f \<in> set (file_resolutions fs (ffile f))"
      using f by (auto simp: file_resolutions_def)
    with k show "ffile f \<in> set (object_keys (modificationPerFile (md_result fs)))
                 \<and> resolution f \<in> set (file_modifications (md_result fs) (ffile f))"
      by (simp add: keys file_modifications_result)
  qed
  have t: "\<forall>k g. find (\<lambda>f. ffile f = k) (edits fs) = Some g \<and> resolutionType g \<noteq> []
             \<longrightarrow> file_type (md_result fs) k = resolutionType g"
  proof (intro allI impI)
    fix k g assume a: "find (\<lambda>f. ffile f = k) (edits fs) = Some g \<and> resolutionType g \<noteq> []"
    then have "g \<in> set (edits fs) \<and> ffile g = k"
      by (auto simp: find_Some_iff)
    then have "k \<in> set (edit_files fs)" by (auto simp: edit_files_set)
    with a show "file_type (md_result fs) k = resolutionType g"
      by (simp add: file_type_result first_type_first)
  qed
  from st c g t show ?thesis by blast
qed

theorem modification_tags_witness:
  "\<exists>st. md_forEach (project_env ''1.4.1'' no_rules) md_init
          [mk_finding ''FN001'' ''./tsconfig.json'' ''json'' ''{a}'',
           mk_finding ''FN002'' ''./package.json'' ''cmd'' ''npm i'',
           mk_finding ''FN003'' ''./tsconfig.json'' ''ts'' ''c''] = Inr st
     \<and> commandsToExecute st = [''npm i'']
     \<and> file_type st ''./tsconfig.json'' = ''json''
     \<and> ''c'' \<in> set (file_modifications st ''./tsconfig.json'')"
proof -
  let ?fs = "[mk_finding ''FN001'' ''./tsconfig.json'' ''json'' ''{a}'',
              mk_finding ''FN002'' ''./package.json'' ''cmd'' ''npm i'',
              mk_finding ''FN003'' ''./tsconfig.json'' ''ts'' ''c'']"
  have e: "edits ?fs = [mk_finding ''FN001'' ''./tsconfig.json'' ''json'' ''{a}'',
                        mk_finding ''FN003'' ''./tsconfig.json'' ''ts'' ''c'']"
    by (simp add: edits_def mk_finding_def)
  have nb: "\<forall>f\<in>set (edits ?fs). \<not> array_builtin (project_env ''1.4.1'' no_rules) (ffile f)"
    by (simp add: e) (simp add: mk_finding_def builtin_example not_builtin_example)
  have f: "find (\<lambda>f. ffile f = ''./tsconfig.json'') (edits ?fs)
           = Some (mk_finding ''FN001'' ''./tsconfig.json'' ''json'' ''{a}'')"
    by (simp add: e) (simp add: mk_finding_def)
  from modification_tags[OF nb] obtain st where
    st: "md_forEach (project_env ''1.4.1'' no_rules) md_init ?fs = Inr st"
    and c: "commandsToExecute st = map resolution (filter (\<lambda>f. resolutionType f = ''cmd'') ?fs)"
    and g: "\<forall>f\<in>set (edits ?fs). ffile f \<in> set (object_keys (modificationPerFile st))
              \<and> resolution f \<in> set (file_modifications st (ffile f))"
    and t: "\<forall>k g. find (\<lambda>f. ffile f = k) (edits ?fs) = Some g \<and> resolutionType g \<noteq> []
              \<longrightarrow> file_type st k = resolutionType g"
    by blast
  have "commandsToExecute st = [''npm i'']"
    using c by (simp add: mk_finding_def)
  moreover have "file_type st ''./tsconfig.json'' = ''json''"
  proof -
    have "resolutionType (mk_finding ''FN001'' ''./tsconfig.json'' ''json'' ''{a}'') \<noteq> []"
      by (simp add: mk_finding_def)
    with t f have "file_type st ''./tsconfig.json''
                   = resolutionType (mk_finding ''FN001'' ''./tsconfig.json'' ''json'' ''{a}'')"
      by blast
    then show ?thesis by (simp add: mk_finding_def)
  qed
  moreover have "''c'' \<in> set (file_modifications st ''./tsconfig.json'')"
    using g e by (auto simp: mk_finding_def)
  ultimately show ?thesis using st by blast
qed


text \<open>
  C9, as the claim states it, fails when the first finding for a file carries the
  empty string as its type: the stored type is then falsy, and the next finding for
  the file replaces it.
\<close>

theorem modification_tags_counterexample:
  "summary_tags (project_env ''1.4.1'' no_rules)
     [mk_finding ''FN001'' ''./tsconfig.json'' [] ''{a}'',
      mk_finding ''FN002'' ''./tsconfig.json'' ''json'' ''{b}'']
   = Some [(''./tsconfig.json'', ''json'')]
   \<and> map resolutionType
       (edits [mk_finding ''FN001'' ''./tsconfig.json'' [] ''{a}'',
               mk_finding ''FN002'' ''./tsconfig.json'' ''json'' ''{b}''])
   = [[], ''json'']"
proof -
  let ?fs = "[mk_finding ''FN001'' ''./tsconfig.json'' [] ''{a}'',
              mk_finding ''FN002'' ''./tsconfig.json'' ''json'' ''{b}'']"
  have e: "edits ?fs = ?fs"
    by (simp add: edits_def mk_finding_def)
  have "md_forEach (project_env ''1.4.1'' no_rules) md_init ?fs = Inr (md_result ?fs)"
    by (intro md_forEach_result) (simp add: e, simp add: mk_finding_def builtin_example not_builtin_example)
  moreover have "edit_files ?fs = [''./tsconfig.json'']"
    by (simp add: edit_files_def e) (simp add: mk_finding_def)
  moreover have "first_type ?fs ''./tsconfig.json'' = ''json''"
    by (simp add: first_type_def e) (simp add: mk_finding_def)
  ultimately have "summary_tags (project_env ''1.4.1'' no_rules) ?fs
                   = Some [(''./tsconfig.json'', ''json'')]"
    by (simp add: summary_tags_def md_result_def object_keys_def not_index_example file_type_def
                  dict_get_def)
  moreover have "map resolutionType (edits ?fs) = [[], ''json'']"
    by (simp add: e) (simp add: mk_finding_def)
  ultimately show ?thesis by simp
qed


end
